theory Spec2Isabelle
  imports Complex_Main "HOL-Library.Sublist" "HOL-Library.Multiset"
begin

section \<open>JavaScript values used by the sync engine\<close>

text \<open>
  A thrown value is either an \<open>Error\<close> instance carrying its message or something else.
  The handlers of the source read it with
  \<^verbatim>\<open>error instanceof Error ? error.message : "Unknown error"\<close>.
\<close>

datatype exn = JsError string | Thrown

definition message_of :: "exn \<Rightarrow> string" where
  "message_of e = (case e of JsError m \<Rightarrow> m | Thrown \<Rightarrow> ''Unknown error'')"

text \<open>
  An optional string is \<open>None\<close> for \<open>null\<close>/\<open>undefined\<close>. JavaScript's truthiness test
  (\<^verbatim>\<open>if (s)\<close>, \<^verbatim>\<open>Boolean(s)\<close>, \<^verbatim>\<open>s || d\<close>) also rejects the empty string.
\<close>

definition truthy :: "string option \<Rightarrow> bool" where
  "truthy s = (case s of None \<Rightarrow> False | Some v \<Rightarrow> v \<noteq> [])"

text \<open>
  A \<open>Date\<close> is kept symbolic: \<open>DateOf s\<close> is \<^verbatim>\<open>new Date(s)\<close> for an upstream string,
  \<open>DateAt t\<close> is \<^verbatim>\<open>new Date()\<close> taken when the clock reads \<open>t\<close> milliseconds.
\<close>

datatype jsdate = DateOf string | DateAt int

text \<open>
  The result of awaiting an asynchronous call: it resolved with a value, it rejected with a
  thrown value, or it has not returned within the observed behaviour of the network.
\<close>

datatype 'a promised = Pending | Rejected exn | Resolved 'a

text \<open>Decimal rendering of a number inside a template string.\<close>

fun string_of_nat :: "nat \<Rightarrow> string" where
  "string_of_nat n =
     (if n < 10 then [char_of (48 + n)]
      else string_of_nat (n div 10) @ [char_of (48 + n mod 10)])"

declare string_of_nat.simps [simp del]

text \<open>
  A JavaScript number, as far as the client computes with one: \<open>NaN\<close>, an integer of
  magnitude at most \<open>2^53\<close> (where doubles are exact), or \<open>Beyond positive\<close>, some double
  of larger magnitude (an infinity included) with the given sign, whose digits are not
  modelled.
\<close>

datatype jsnum = NaN | Num int | Beyond bool

definition exact :: "bool \<Rightarrow> int \<Rightarrow> jsnum" where
  "exact positive k = (if \<bar>k\<bar> \<le> 9007199254740992 then Num k else Beyond positive)"

text \<open>\<^verbatim>\<open>v * 1000\<close>\<close>

definition times_1000 :: "jsnum \<Rightarrow> jsnum" where
  "times_1000 v =
     (case v of
        NaN \<Rightarrow> NaN
      | Num k \<Rightarrow> exact (0 < k) (k * 1000)
      | Beyond positive \<Rightarrow> Beyond positive)"

text \<open>
  \<^verbatim>\<open>parseInt(s)\<close> without a radix, on a header value (a string of bytes): leading white
  space is skipped (of the characters JavaScript counts as white space, these seven are
  bytes), a sign is read, a \<open>0x\<close> prefix selects base 16, then the longest run of digits
  is read. No digit at all gives \<open>NaN\<close>.
\<close>

definition is_space :: "char \<Rightarrow> bool" where
  "is_space c =
     (c \<in> set [CHR '' '', CHR 0x09, CHR 0x0A, CHR 0x0B, CHR 0x0C, CHR 0x0D, CHR 0xA0])"

definition digit_of :: "nat \<Rightarrow> char \<Rightarrow> nat option" where
  "digit_of radix c =
     (let k = (of_char c :: nat);
          v = (if 48 \<le> k \<and> k \<le> 57 then Some (k - 48)
               else if 97 \<le> k \<and> k \<le> 122 then Some (k - 87)
               else if 65 \<le> k \<and> k \<le> 90 then Some (k - 55)
               else None)
      in case v of None \<Rightarrow> None | Some d \<Rightarrow> if d < radix then Some d else None)"

definition parseInt :: "string \<Rightarrow> jsnum" where
  "parseInt s =
     (let t = dropWhile is_space s;
          neg = (take 1 t = ''-'');
          u = (if take 1 t = ''-'' \<or> take 1 t = ''+'' then drop 1 t else t);
          hex = (take 2 u = ''0x'' \<or> take 2 u = ''0X'');
          radix = (if hex then 16 else 10);
          v = (if hex then drop 2 u else u);
          ds = takeWhile (\<lambda>c. digit_of radix c \<noteq> None) v;
          n = foldl (\<lambda>a c. a * int radix + int (the (digit_of radix c))) 0 ds
      in if ds = [] then NaN else exact (\<not> neg) (if neg then - n else n))"


section \<open>The rate-limited API client (src/lib/readwise.ts)\<close>

subsection \<open>The network as the client sees it\<close>

datatype qvalue = QStr string | QDate jsdate

datatype jvalue = JStr string | JList "string list" | JBool bool

text \<open>
  A request: the URL under \<open>READWISE_API_BASE\<close> as path and search parameters (in the order
  they were set), and the fields of the JSON body (\<open>JSON.stringify\<close> drops the undefined ones).
\<close>

record request =
  req_method :: string
  req_path :: string
  req_query :: "(string \<times> qvalue) list"
  req_body :: "(string \<times> jvalue) list"

text \<open>
  A response: \<open>retryAfter\<close> is \<^verbatim>\<open>response.headers.get("Retry-After")\<close>, and \<open>json\<close> is
  what \<^verbatim>\<open>response.json()\<close> gives, the decoded body at the type the caller declares or the
  message of the error it rejects with.
\<close>

record 'a Response =
  resp_status :: nat
  statusText :: string
  retryAfter :: "string option"
  json :: "string + 'a"

definition ok :: "'a Response \<Rightarrow> bool" where
  "ok response = (200 \<le> resp_status response \<and> resp_status response \<le> 299)"

text \<open>
  What the outside world does around one outbound request: how late the rate limiter's
  timer fires, how long the request takes, whether \<open>fetch\<close> rejects (with a message) or
  resolves with a response, and how late a backoff timer fires.
\<close>

record 'a exchange =
  wake_late :: nat
  latency :: nat
  outcome :: "string + 'a Response"
  backoff_late :: nat

text \<open>
  The network state: the clock read by \<open>Date.now()\<close> (milliseconds), the exchanges still
  to come, and two logs: every request with its send time and \<open>Authorization\<close> header, and
  every backoff wait with the status that caused it and the duration handed to
  \<open>setTimeout\<close>.
\<close>

record 'a net =
  clock :: int
  script :: "'a exchange list"
  sent :: "(int \<times> string \<times> request) list"
  backoffs :: "(nat \<times> jsnum) list"

text \<open>
  \<open>setTimeout(resolve, ms)\<close> under Node: a delay that is \<open>NaN\<close>, below 1 or above
  \<open>2^31 - 1\<close> is set to 1. The timer never fires early; it may fire late.
\<close>

definition timer_delay :: "jsnum \<Rightarrow> int" where
  "timer_delay ms =
     (case ms of
        NaN \<Rightarrow> 1
      | Num d \<Rightarrow> if d < 1 \<or> 2147483647 < d then 1 else d
      | Beyond positive \<Rightarrow> 1)"

definition sleep :: "jsnum \<Rightarrow> nat \<Rightarrow> 'a net \<Rightarrow> 'a net" where
  "sleep ms late n = n\<lparr>clock := clock n + timer_delay ms + int late\<rparr>"

subsection \<open>class ReadwiseClient\<close>

record client =
  token :: string
  lastRequestTime :: int

definition minRequestInterval :: int where
  "minRequestInterval = 3000"

definition createReadwiseClient :: "string \<Rightarrow> client" where
  "createReadwiseClient tok = \<lparr>token = tok, lastRequestTime = 0\<rparr>"

text \<open>
  \<open>rateLimitedFetch(url, options, retryCount)\<close>. The call is \<open>Pending\<close> when the script
  ends while it is still retrying.
\<close>

function rateLimitedFetch ::
  "request \<Rightarrow> nat \<Rightarrow> client \<Rightarrow> 'a net \<Rightarrow> 'a Response promised \<times> client \<times> 'a net" where
  "rateLimitedFetch req retryCount c n =
     (case script n of
        [] \<Rightarrow> (Pending, c, n)
      | x # rest \<Rightarrow>
          let now = clock n;
              timeSinceLastRequest = now - lastRequestTime c;
              n1 = (if timeSinceLastRequest < minRequestInterval
                    then sleep (Num (minRequestInterval - timeSinceLastRequest)) (wake_late x) n
                    else n);
              c1 = c\<lparr>lastRequestTime := clock n1\<rparr>;
              n2 = n1\<lparr>clock := clock n1 + int (latency x), script := rest,
                      sent := sent n1 @ [(clock n1, ''Token '' @ token c, req)]\<rparr>
          in (case outcome x of
               Inl msg \<Rightarrow> (Rejected (JsError msg), c1, n2)
             | Inr response \<Rightarrow>
                 if resp_status response = 429 then
                   let waitTime =
                         (case retryAfter response of
                            None \<Rightarrow> Num (minRequestInterval * 2)
                          | Some h \<Rightarrow>
                              if h = [] then Num (minRequestInterval * 2)
                              else times_1000 (parseInt h));
                       n3 = (sleep waitTime (backoff_late x) n2)
                              \<lparr>backoffs := backoffs n2 @ [(429, waitTime)]\<rparr>
                   in rateLimitedFetch req retryCount c1 n3
                 else if resp_status response = 500 \<and> retryCount < 3 then
                   let waitTime = Num (2 ^ retryCount * 2000);
                       n3 = (sleep waitTime (backoff_late x) n2)
                              \<lparr>backoffs := backoffs n2 @ [(500, waitTime)]\<rparr>
                   in rateLimitedFetch req (retryCount + 1) c1 n3
                 else (Resolved response, c1, n2)))"
  by pat_completeness auto
termination
  by (relation "measure (\<lambda>(req, retryCount, c, n). length (script n))")
     (auto simp: sleep_def Let_def)

declare rateLimitedFetch.simps [simp del]

text \<open>\<open>fetchDocuments(params)\<close>: one page of the list endpoint.\<close>

record fetch_params =
  p_updatedAfter :: "jsdate option"
  p_location :: "string option"
  p_category :: "string option"
  p_pageCursor :: "string option"
  p_withHtmlContent :: "bool option"

text \<open>
  \<^verbatim>\<open>if (v) searchParams.set(k, v)\<close>. \<open>updatedAfter\<close> carries the date whose
  \<open>toISOString()\<close> rendering the caller passes; that rendering is never empty.
\<close>

definition set_param :: "string \<Rightarrow> string option \<Rightarrow> (string \<times> qvalue) list" where
  "set_param k v = (case v of None \<Rightarrow> [] | Some s \<Rightarrow> if s = [] then [] else [(k, QStr s)])"

definition list_url :: "fetch_params \<Rightarrow> request" where
  "list_url params =
     \<lparr>req_method = ''GET'', req_path = ''/v3/list/'',
      req_query =
        (case p_updatedAfter params of None \<Rightarrow> [] | Some d \<Rightarrow> [(''updatedAfter'', QDate d)])
        @ set_param ''location'' (p_location params)
        @ set_param ''category'' (p_category params)
        @ set_param ''pageCursor'' (p_pageCursor params)
        @ (if p_withHtmlContent params = Some True then [(''withHtmlContent'', QStr ''true'')] else []),
      req_body = []\<rparr>"

definition fetchDocuments ::
  "fetch_params \<Rightarrow> client \<Rightarrow> 'a net \<Rightarrow> 'a promised \<times> client \<times> 'a net" where
  "fetchDocuments params c n =
     (case rateLimitedFetch (list_url params) 0 c n of
        (Pending, c', n') \<Rightarrow> (Pending, c', n')
      | (Rejected e, c', n') \<Rightarrow> (Rejected e, c', n')
      | (Resolved response, c', n') \<Rightarrow>
          if \<not> ok response then
            (Rejected (JsError (''Failed to fetch documents: ''
                @ string_of_nat (resp_status response) @ '' '' @ statusText response)), c', n')
          else (case json response of
                  Inl msg \<Rightarrow> (Rejected (JsError msg), c', n')
                | Inr page \<Rightarrow> (Resolved page, c', n')))"

text \<open>\<open>updateDocument(id, params)\<close> and \<open>archiveDocument(id)\<close>.\<close>

record update_params =
  u_title :: "string option"
  u_author :: "string option"
  u_summary :: "string option"
  u_publishedDate :: "string option"
  u_imageUrl :: "string option"
  u_location :: "string option"
  u_category :: "string option"
  u_tags :: "string list option"
  u_seen :: "bool option"

definition json_field :: "string \<Rightarrow> 'b option \<Rightarrow> ('b \<Rightarrow> jvalue) \<Rightarrow> (string \<times> jvalue) list" where
  "json_field k v f = (case v of None \<Rightarrow> [] | Some x \<Rightarrow> [(k, f x)])"

definition update_url :: "string \<Rightarrow> update_params \<Rightarrow> request" where
  "update_url ident params =
     \<lparr>req_method = ''PATCH'', req_path = ''/v3/update/'' @ ident @ ''/'',
      req_query = [],
      req_body =
        json_field ''title'' (u_title params) JStr
        @ json_field ''author'' (u_author params) JStr
        @ json_field ''summary'' (u_summary params) JStr
        @ json_field ''published_date'' (u_publishedDate params) JStr
        @ json_field ''image_url'' (u_imageUrl params) JStr
        @ json_field ''location'' (u_location params) JStr
        @ json_field ''category'' (u_category params) JStr
        @ json_field ''tags'' (u_tags params) JList
        @ json_field ''seen'' (u_seen params) JBool\<rparr>"

definition updateDocument ::
  "string \<Rightarrow> update_params \<Rightarrow> client \<Rightarrow> 'a net \<Rightarrow> 'a promised \<times> client \<times> 'a net" where
  "updateDocument ident params c n =
     (case rateLimitedFetch (update_url ident params) 0 c n of
        (Pending, c', n') \<Rightarrow> (Pending, c', n')
      | (Rejected e, c', n') \<Rightarrow> (Rejected e, c', n')
      | (Resolved response, c', n') \<Rightarrow>
          if \<not> ok response then
            (Rejected (JsError (''Failed to update document: ''
                @ string_of_nat (resp_status response) @ '' '' @ statusText response)), c', n')
          else (case json response of
                  Inl msg \<Rightarrow> (Rejected (JsError msg), c', n')
                | Inr ack \<Rightarrow> (Resolved ack, c', n')))"

definition archive_params :: update_params where
  "archive_params =
     \<lparr>u_title = None, u_author = None, u_summary = None, u_publishedDate = None,
      u_imageUrl = None, u_location = Some ''archive'', u_category = None, u_tags = None,
      u_seen = None\<rparr>"

definition archiveDocument ::
  "string \<Rightarrow> client \<Rightarrow> 'a net \<Rightarrow> 'a promised \<times> client \<times> 'a net" where
  "archiveDocument ident c n = updateDocument ident archive_params c n"

text \<open>
  \<open>batchArchive(ids)\<close>: the loop over the identifiers with its two accumulators. The
  optional progress callback does not enter the result and no caller passes one.
\<close>

record batch_result =
  batch_success :: "string list"
  batch_failed :: "(string \<times> string) list"

fun batchArchive_loop ::
  "string list \<Rightarrow> batch_result \<Rightarrow> client \<Rightarrow> 'a net \<Rightarrow> batch_result promised \<times> client \<times> 'a net" where
  "batchArchive_loop [] acc c n = (Resolved acc, c, n)"
| "batchArchive_loop (ident # ids) acc c n =
     (case archiveDocument ident c n of
        (Pending, c', n') \<Rightarrow> (Pending, c', n')
      | (Resolved ack, c', n') \<Rightarrow>
          batchArchive_loop ids (acc\<lparr>batch_success := batch_success acc @ [ident]\<rparr>) c' n'
      | (Rejected e, c', n') \<Rightarrow>
          batchArchive_loop ids
            (acc\<lparr>batch_failed := batch_failed acc @ [(ident, message_of e)]\<rparr>) c' n')"

definition batchArchive ::
  "string list \<Rightarrow> client \<Rightarrow> 'a net \<Rightarrow> batch_result promised \<times> client \<times> 'a net" where
  "batchArchive ids c n = batchArchive_loop ids \<lparr>batch_success = [], batch_failed = []\<rparr> c n"


section \<open>Documents and the transformer (src/app/actions/sync.ts)\<close>

record tag =
  tag_name :: string
  tag_type :: string
  tag_created :: int

text \<open>
  The two wire shapes of \<open>tags\<close>: an array of tag objects, or an object from tag key to tag
  object, given as its entries in the order \<open>Object.values\<close> enumerates them.
\<close>

datatype tags_wire = TagArray "tag list" | TagRecord "(string \<times> tag) list"

text \<open>
  A property that is handed on as it came: left out (\<open>undefined\<close>), \<open>null\<close>, or a value.
\<close>

datatype 'a field = Undefined | Null | Value 'a

text \<open>
  \<open>interface ReadwiseDocument\<close>, fields prefixed with \<open>rw_\<close>. The properties the
  transformer tests (\<open>tags\<close>, the four optional timestamps, \<open>reading_progress\<close>) are
  optional: the tests treat \<open>undefined\<close> and \<open>null\<close> alike, both are \<open>None\<close>.
\<close>

record ReadwiseDocument =
  rw_id :: string
  rw_url :: string
  rw_source_url :: "string field"
  rw_title :: "string field"
  rw_author :: "string field"
  rw_source :: "string field"
  rw_category :: string
  rw_location :: string
  rw_tags :: "tags_wire option"
  rw_site_name :: "string field"
  rw_word_count :: "int field"
  rw_summary :: "string field"
  rw_published_date :: "string option"
  rw_created_at :: string
  rw_updated_at :: string
  rw_first_opened_at :: "string option"
  rw_last_opened_at :: "string option"
  rw_last_moved_at :: "string option"
  rw_reading_progress :: "real option"
  rw_parent_id :: "string field"
  rw_image_url :: "string field"
  rw_notes :: "string field"

record ReadwiseListResponse =
  rl_count :: nat
  nextPageCursor :: "string option"
  results :: "ReadwiseDocument list"

text \<open>
  The local shape, as \<open>transformDocument\<close> returns it and as a stored row holds it (a
  stored row has no \<open>Undefined\<close> field).
\<close>

record Document =
  readwiseId :: string
  url :: string
  sourceUrl :: "string field"
  title :: "string field"
  author :: "string field"
  summary :: "string field"
  category :: string
  location :: string
  tags :: "string list"
  siteName :: "string field"
  wordCount :: "int field"
  publishedDate :: "jsdate option"
  firstOpenedAt :: "jsdate option"
  lastOpenedAt :: "jsdate option"
  lastMovedAt :: "jsdate option"
  readingProgress :: real
  parentId :: "string field"
  createdAt :: jsdate
  updatedAt :: jsdate

text \<open>\<^verbatim>\<open>s ? new Date(s) : null\<close>\<close>

definition date_or_null :: "string option \<Rightarrow> jsdate option" where
  "date_or_null s = (if truthy s then Some (DateOf (the s)) else None)"

definition transformDocument :: "ReadwiseDocument \<Rightarrow> Document" where
  "transformDocument doc =
     (let tags = (case rw_tags doc of
                    None \<Rightarrow> []
                  | Some (TagArray ts) \<Rightarrow> map tag_name ts
                  | Some (TagRecord kvs) \<Rightarrow> map tag_name (map snd kvs))
      in \<lparr>readwiseId = rw_id doc,
          url = rw_url doc,
          sourceUrl = rw_source_url doc,
          title = rw_title doc,
          author = rw_author doc,
          summary = rw_summary doc,
          category = rw_category doc,
          location = rw_location doc,
          tags = tags,
          siteName = rw_site_name doc,
          wordCount = rw_word_count doc,
          publishedDate = date_or_null (rw_published_date doc),
          firstOpenedAt = date_or_null (rw_first_opened_at doc),
          lastOpenedAt = date_or_null (rw_last_opened_at doc),
          lastMovedAt = date_or_null (rw_last_moved_at doc),
          readingProgress = (case rw_reading_progress doc of None \<Rightarrow> 0 | Some p \<Rightarrow> p),
          parentId = rw_parent_id doc,
          createdAt = DateOf (rw_created_at doc),
          updatedAt = DateOf (rw_updated_at doc)\<rparr>)"

section \<open>Local storage\<close>

datatype status = Idle | Syncing | Completed | Error

record SyncState =
  status :: status
  lastCursor :: "string option"
  lastSyncAt :: "jsdate option"
  totalSynced :: nat
  errorMsg :: "string option"

text \<open>
  The store: \<open>apiToken\<close> is \<^verbatim>\<open>settings?.apiToken\<close>, \<open>syncState\<close> the row \<open>main\<close> if it
  exists, \<open>documents\<close> the document table.
\<close>

record db =
  apiToken :: "string option"
  syncState :: "SyncState option"
  documents :: "Document list"

text \<open>
  \<open>prisma.document.upsert\<close> keyed by \<open>readwiseId\<close>. A new key appends a row, where a
  property left \<open>undefined\<close> takes the column default \<open>null\<close>. An existing row takes the
  new data, where a property left \<open>undefined\<close> leaves the stored value and \<open>null\<close>
  overwrites it.
\<close>

definition or_default :: "'b field \<Rightarrow> 'b field" where
  "or_default new = (case new of Undefined \<Rightarrow> Null | Null \<Rightarrow> Null | Value v \<Rightarrow> Value v)"

definition or_stored :: "'b field \<Rightarrow> 'b field \<Rightarrow> 'b field" where
  "or_stored new old = (case new of Undefined \<Rightarrow> old | Null \<Rightarrow> Null | Value v \<Rightarrow> Value v)"

definition create_row :: "Document \<Rightarrow> Document" where
  "create_row doc =
     doc\<lparr>sourceUrl := or_default (sourceUrl doc),
         title := or_default (title doc),
         author := or_default (author doc),
         summary := or_default (summary doc),
         siteName := or_default (siteName doc),
         wordCount := or_default (wordCount doc),
         parentId := or_default (parentId doc)\<rparr>"

definition update_row :: "Document \<Rightarrow> Document \<Rightarrow> Document" where
  "update_row old doc =
     doc\<lparr>sourceUrl := or_stored (sourceUrl doc) (sourceUrl old),
         title := or_stored (title doc) (title old),
         author := or_stored (author doc) (author old),
         summary := or_stored (summary doc) (summary old),
         siteName := or_stored (siteName doc) (siteName old),
         wordCount := or_stored (wordCount doc) (wordCount old),
         parentId := or_stored (parentId doc) (parentId old)\<rparr>"

fun upsert :: "Document \<Rightarrow> Document list \<Rightarrow> Document list" where
  "upsert doc [] = [create_row doc]"
| "upsert doc (row # rows) =
     (if readwiseId row = readwiseId doc then update_row row doc # rows
      else row # upsert doc rows)"

text \<open>
  The upsert loop of one page. \<open>rejects doc\<close> is the error the storage engine throws for
  that row, if any; the rows written before it stay written.
\<close>

fun upsert_all ::
  "(Document \<Rightarrow> exn option) \<Rightarrow> Document list \<Rightarrow> Document list \<Rightarrow> exn option \<times> Document list" where
  "upsert_all rejects [] rows = (None, rows)"
| "upsert_all rejects (doc # docs) rows =
     (case rejects doc of
        Some e \<Rightarrow> (Some e, rows)
      | None \<Rightarrow> upsert_all rejects docs (upsert doc rows))"

text \<open>
  \<open>prisma.syncState.update\<close> on the row \<open>main\<close>, used where the row is known to exist.
\<close>

definition update_syncState :: "(SyncState \<Rightarrow> SyncState) \<Rightarrow> db \<Rightarrow> db" where
  "update_syncState f d = d\<lparr>syncState := map_option f (syncState d)\<rparr>"

text \<open>
  Modelled from the spec: the column defaults of a newly created SyncState row (the Prisma
  schema is not among the sources): no cursor, no last sync time, no error message.
\<close>

definition created_row :: "status \<Rightarrow> nat \<Rightarrow> SyncState" where
  "created_row st n =
     \<lparr>status = st, lastCursor = None, lastSyncAt = None, totalSynced = n, errorMsg = None\<rparr>"

section \<open>The sync state machine (src/app/actions/sync.ts)\<close>

record SyncProgress =
  p_status :: status
  p_totalSynced :: nat
  currentBatch :: nat
  hasMore :: bool
  p_error :: "string option"

definition startSync :: "db \<Rightarrow> SyncProgress \<times> db" where
  "startSync d =
     (if \<not> truthy (apiToken d) then
        (\<lparr>p_status = Error, p_totalSynced = 0, currentBatch = 0, hasMore = False,
          p_error = Some ''No API token configured. Please add your Readwise API token in settings.''\<rparr>, d)
      else if map_option status (syncState d) = Some Syncing then
        (\<lparr>p_status = Syncing, p_totalSynced = totalSynced (the (syncState d)), currentBatch = 0,
          hasMore = True, p_error = None\<rparr>, d)
      else
        (\<lparr>p_status = Syncing, p_totalSynced = 0, currentBatch = 0, hasMore = True, p_error = None\<rparr>,
         d\<lparr>syncState :=
             (case syncState d of
                Some row \<Rightarrow> Some (row\<lparr>status := Syncing, errorMsg := None, lastCursor := None\<rparr>)
              | None \<Rightarrow> Some (created_row Syncing 0))\<rparr>))"

definition cursor_label :: "string option \<Rightarrow> string" where
  "cursor_label cur =
     (case cur of
        None \<Rightarrow> ''start''
      | Some s \<Rightarrow> if take 20 s = [] then ''start'' else take 20 s)"

text \<open>The \<open>catch\<close> block of \<open>syncNextBatch\<close>; \<open>st\<close> is the row read at the top of the step.\<close>

definition sync_catch :: "exn \<Rightarrow> SyncState \<Rightarrow> db \<Rightarrow> SyncProgress \<times> db" where
  "sync_catch e st d =
     (let msg = message_of e
      in (\<lparr>p_status = Error, p_totalSynced = totalSynced st, currentBatch = 0, hasMore = False,
           p_error = Some msg\<rparr>,
          update_syncState
            (\<lambda>row. row\<lparr>status := Error,
                       errorMsg := Some (msg @ '' (at cursor: '' @ cursor_label (lastCursor st) @ ''...)'')\<rparr>)
            d))"

definition syncNextBatch ::
  "(Document \<Rightarrow> exn option) \<Rightarrow> db \<Rightarrow> ReadwiseListResponse net
     \<Rightarrow> SyncProgress promised \<times> db \<times> ReadwiseListResponse net" where
  "syncNextBatch rejects d n =
     (if \<not> truthy (apiToken d) then
        (Resolved \<lparr>p_status = Error, p_totalSynced = 0, currentBatch = 0, hasMore = False,
                   p_error = Some ''No API token configured''\<rparr>, d, n)
      else case syncState d of
        None \<Rightarrow>
          (Resolved \<lparr>p_status = Idle, p_totalSynced = 0, currentBatch = 0, hasMore = False,
                     p_error = None\<rparr>, d, n)
      | Some st \<Rightarrow>
          if status st \<noteq> Syncing then
            (Resolved \<lparr>p_status = Idle, p_totalSynced = totalSynced st, currentBatch = 0,
                       hasMore = False, p_error = None\<rparr>, d, n)
          else
            (case fetchDocuments
                    \<lparr>p_updatedAfter = lastSyncAt st, p_location = None, p_category = None,
                     p_pageCursor = lastCursor st, p_withHtmlContent = None\<rparr>
                    (createReadwiseClient (the (apiToken d))) n of
               (Pending, c', n') \<Rightarrow> (Pending, d, n')
             | (Rejected e, c', n') \<Rightarrow>
                 (case sync_catch e st d of (progress, d') \<Rightarrow> (Resolved progress, d', n'))
             | (Resolved response, c', n') \<Rightarrow>
                 let docs = map transformDocument (results response)
                 in (case upsert_all rejects docs (documents d) of
                       (Some e, rows) \<Rightarrow>
                         (case sync_catch e st (d\<lparr>documents := rows\<rparr>) of
                            (progress, d') \<Rightarrow> (Resolved progress, d', n'))
                     | (None, rows) \<Rightarrow>
                         let more = (truthy (nextPageCursor response) \<and> length docs > 0);
                             currentTotal = length rows;
                             d' = update_syncState
                                    (\<lambda>row. row\<lparr>totalSynced := currentTotal,
                                               lastCursor := nextPageCursor response,
                                               status := (if more then Syncing else Idle),
                                               lastSyncAt := (if more then lastSyncAt st
                                                              else Some (DateAt (clock n'))),
                                               errorMsg := None\<rparr>)
                                    (d\<lparr>documents := rows\<rparr>)
                         in (Resolved \<lparr>p_status = (if more then Syncing else Completed),
                                       p_totalSynced = currentTotal, currentBatch = length docs,
                                       hasMore = more, p_error = None\<rparr>, d', n'))))"

text \<open>
  \<open>clearError\<close>: \<open>prisma.syncState.update\<close> rejects when the row does not exist.
\<close>

definition clearError :: "db \<Rightarrow> unit promised \<times> db" where
  "clearError d =
     (case syncState d of
        None \<Rightarrow> (Rejected (JsError ''Record to update not found.''), d)
      | Some row \<Rightarrow> (Resolved (), d\<lparr>syncState := Some (row\<lparr>status := Idle, errorMsg := None\<rparr>)\<rparr>))"

section \<open>The batch archive action (src/app/actions/triage.ts)\<close>

record ArchiveResult =
  success :: nat
  failed :: nat
  errors :: "string list"

definition archiveDocuments ::
  "string list \<Rightarrow> db \<Rightarrow> 'a net \<Rightarrow> ArchiveResult promised \<times> db \<times> 'a net" where
  "archiveDocuments readwiseIds d n =
     (if \<not> truthy (apiToken d) then
        (Resolved \<lparr>success = 0, failed = length readwiseIds,
                   errors = [''No API token configured'']\<rparr>, d, n)
      else
        (case batchArchive readwiseIds (createReadwiseClient (the (apiToken d))) n of
           (Pending, c', n') \<Rightarrow> (Pending, d, n')
         | (Rejected e, c', n') \<Rightarrow> (Rejected e, d, n')
         | (Resolved result, c', n') \<Rightarrow>
             let d' = (if length (batch_success result) > 0 then
                         d\<lparr>documents :=
                             map (\<lambda>row. if readwiseId row \<in> set (batch_success result)
                                        then row\<lparr>location := ''archive'',
                                                 lastMovedAt := Some (DateAt (clock n'))\<rparr>
                                        else row)
                                 (documents d)\<rparr>
                       else d)
             in (Resolved \<lparr>success = length (batch_success result),
                           failed = length (batch_failed result),
                           errors = map (\<lambda>(ident, err). ident @ '': '' @ err) (batch_failed result)\<rparr>,
                 d', n')))"


section \<open>Notions used to state the properties\<close>

subsection \<open>One round of \<open>rateLimitedFetch\<close>\<close>

text \<open>
  Names for the parts of one round: the time the request goes out (after the rate limiter's
  wait, if any), the network after the request has been answered, and the network after a
  backoff wait.
\<close>

definition send_time :: "client \<Rightarrow> 'a net \<Rightarrow> 'a exchange \<Rightarrow> int" where
  "send_time c n x =
     (if clock n - lastRequestTime c < minRequestInterval
      then clock n + timer_delay (Num (minRequestInterval - (clock n - lastRequestTime c)))
             + int (wake_late x)
      else clock n)"

definition after_send :: "request \<Rightarrow> client \<Rightarrow> 'a net \<Rightarrow> 'a exchange \<Rightarrow> 'a exchange list \<Rightarrow> 'a net" where
  "after_send req c n x rest =
     n\<lparr>clock := send_time c n x + int (latency x), script := rest,
       sent := sent n @ [(send_time c n x, ''Token '' @ token c, req)]\<rparr>"

definition after_backoff :: "nat \<Rightarrow> jsnum \<Rightarrow> 'a exchange \<Rightarrow> 'a net \<Rightarrow> 'a net" where
  "after_backoff code w x n =
     n\<lparr>clock := clock n + timer_delay w + int (backoff_late x),
       backoffs := backoffs n @ [(code, w)]\<rparr>"

subsection \<open>The waits of the retry policy\<close>

text \<open>
  The wait the client computes after a 429: what \<open>parseInt\<close> reads from the Retry-After
  value, times 1000, if the header is present with a value, otherwise twice the minimum
  interval.
\<close>

definition throttle_wait :: "string option \<Rightarrow> jsnum" where
  "throttle_wait h =
     (if truthy h then times_1000 (parseInt (the h))
      else Num (2 * minRequestInterval))"

text \<open>The backoff entry a 429 response leaves in the log.\<close>

definition throttle_backoff :: "'a exchange \<Rightarrow> nat \<times> jsnum" where
  "throttle_backoff x =
     (429, throttle_wait (case outcome x of Inl msg \<Rightarrow> None | Inr response \<Rightarrow> retryAfter response))"

text \<open>The waits still allowed for status 500 once \<open>rc\<close> retries are spent: 2 s, 4 s, 8 s.\<close>

definition server_error_backoffs :: "nat \<Rightarrow> (nat \<times> jsnum) list" where
  "server_error_backoffs rc = map (\<lambda>k. (500, Num (2 ^ k * 2000))) [rc..<3]"

text \<open>A character that is a decimal digit.\<close>

definition decimal :: "char \<Rightarrow> bool" where
  "decimal ch = (48 \<le> (of_char ch :: nat) \<and> (of_char ch :: nat) \<le> 57)"

subsection \<open>Reading the logs\<close>

text \<open>
  An exchange that answers with a given status; the backoff entries, the number of requests
  and the requests that a run added to the logs between the network \<open>n\<close> before it and the
  network \<open>n'\<close> after it.
\<close>

definition answers :: "nat \<Rightarrow> 'a exchange \<Rightarrow> bool" where
  "answers code x =
     (case outcome x of Inl msg \<Rightarrow> False | Inr response \<Rightarrow> resp_status response = code)"

text \<open>An exchange that ends a call: no 429 and no 500.\<close>

definition final :: "'a exchange \<Rightarrow> bool" where
  "final x = (\<not> answers 429 x \<and> \<not> answers 500 x)"

definition new_backoffs :: "'a net \<Rightarrow> 'a net \<Rightarrow> (nat \<times> jsnum) list" where
  "new_backoffs n n' = drop (length (backoffs n)) (backoffs n')"

definition requests_made :: "'a net \<Rightarrow> 'a net \<Rightarrow> nat" where
  "requests_made n n' = length (sent n') - length (sent n)"

definition new_requests :: "'a net \<Rightarrow> 'a net \<Rightarrow> request list" where
  "new_requests n n' = map (\<lambda>e. snd (snd e)) (drop (length (sent n)) (sent n'))"

definition new_send_times :: "'a net \<Rightarrow> 'a net \<Rightarrow> int list" where
  "new_send_times n n' = map fst (drop (length (sent n)) (sent n'))"

subsection \<open>When a retry goes out\<close>

text \<open>
  Send times \<open>ts\<close> of one call, against the exchanges \<open>xs\<close> they met and the backoff
  entries \<open>bs\<close> they caused: each retry goes out when the timer set for the wait has fired
  after the response (\<open>latency\<close>, the timer's delay, its lateness), unless that is within
  the minimum interval of the request before; then it goes out when the rate limiter's
  timer fires.
\<close>

fun retried_after :: "int list \<Rightarrow> 'a exchange list \<Rightarrow> (nat \<times> jsnum) list \<Rightarrow> bool" where
  "retried_after (t # u # ts) (x # y # xs) (b # bs) =
     (u = (if int (latency x) + timer_delay (snd b) + int (backoff_late x) < minRequestInterval
           then t + minRequestInterval + int (wake_late y)
           else t + int (latency x) + timer_delay (snd b) + int (backoff_late x))
      \<and> retried_after (u # ts) (y # xs) bs)"
| "retried_after ts xs bs = True"

subsection \<open>What the upstream's answers mean for a batch\<close>

text \<open>
  The exchange that ends a call begun with \<open>rc\<close> retries spent, and the script left after
  it: a 429 is passed over, a 500 is passed over while retries remain. \<open>None\<close> when the
  script ends first.
\<close>

fun settle :: "nat \<Rightarrow> 'a exchange list \<Rightarrow> ('a exchange \<times> 'a exchange list) option" where
  "settle rc [] = None"
| "settle rc (x # xs) =
     (if answers 429 x then settle rc xs
      else if answers 500 x \<and> rc < 3 then settle (Suc rc) xs
      else Some (x, xs))"

text \<open>For each identifier of a batch, in order, the exchange that ends its call.\<close>

fun verdicts :: "string list \<Rightarrow> 'a exchange list \<Rightarrow> (string \<times> 'a exchange) list option" where
  "verdicts [] xs = Some []"
| "verdicts (ident # ids) xs =
     (case settle 0 xs of
        None \<Rightarrow> None
      | Some (x, rest) \<Rightarrow>
          (case verdicts ids rest of None \<Rightarrow> None | Some vs \<Rightarrow> Some ((ident, x) # vs)))"

text \<open>
  An update is accepted when the response is a success with a readable body; otherwise the
  reason of the failure is the message of what \<open>updateDocument\<close> throws.
\<close>

definition accepts :: "'a exchange \<Rightarrow> bool" where
  "accepts x =
     (case outcome x of
        Inl msg \<Rightarrow> False
      | Inr response \<Rightarrow> ok response \<and> (case json response of Inl msg \<Rightarrow> False | Inr ack \<Rightarrow> True))"

definition refusal :: "'a exchange \<Rightarrow> string" where
  "refusal x =
     (case outcome x of
        Inl msg \<Rightarrow> msg
      | Inr response \<Rightarrow>
          if \<not> ok response then
            ''Failed to update document: '' @ string_of_nat (resp_status response) @ '' ''
              @ statusText response
          else (case json response of Inl msg \<Rightarrow> msg | Inr ack \<Rightarrow> []))"

subsection \<open>Sequences of calls through one client\<close>

text \<open>
  A caller that makes one call after the other through the same client, doing something
  else for \<open>idle\<close> milliseconds before each call.
\<close>

fun calls :: "(nat \<times> request) list \<Rightarrow> client \<Rightarrow> 'a net \<Rightarrow> client \<times> 'a net" where
  "calls [] c n = (c, n)"
| "calls ((idle, req) # later) c n =
     (case rateLimitedFetch req 0 c (n\<lparr>clock := clock n + int idle\<rparr>) of
        (r, c', n') \<Rightarrow> calls later c' n')"

text \<open>Successive send times are at least the minimum interval apart.\<close>

definition spaced :: "int list \<Rightarrow> bool" where
  "spaced ts = successively (\<lambda>t u. t + minRequestInterval \<le> u) ts"


section \<open>Sample data for the concrete checks\<close>

definition sample_doc :: "string \<Rightarrow> ReadwiseDocument" where
  "sample_doc ident =
     \<lparr>rw_id = ident, rw_url = ''https://example.org/'' @ ident, rw_source_url = Undefined,
      rw_title = Value ''A title'', rw_author = Null, rw_source = Undefined,
      rw_category = ''article'', rw_location = ''new'',
      rw_tags = Some (TagRecord
        [(''k1'', \<lparr>tag_name = ''rust'', tag_type = ''manual'', tag_created = 1\<rparr>)]),
      rw_site_name = Undefined, rw_word_count = Value 1200, rw_summary = Undefined,
      rw_published_date = None, rw_created_at = ''2024-01-01T00:00:00Z'',
      rw_updated_at = ''2024-01-02T00:00:00Z'', rw_first_opened_at = None,
      rw_last_opened_at = Some ''2024-01-03T00:00:00Z'', rw_last_moved_at = None,
      rw_reading_progress = None, rw_parent_id = Undefined, rw_image_url = Undefined,
      rw_notes = Undefined\<rparr>"

text \<open>A response with the given status and body, 50 ms after the request, timers on time.\<close>

definition reply :: "nat \<Rightarrow> string \<Rightarrow> string option \<Rightarrow> string + 'a \<Rightarrow> 'a exchange" where
  "reply code txt after body =
     \<lparr>wake_late = 0, latency = 50,
      outcome = Inr \<lparr>resp_status = code, statusText = txt, retryAfter = after, json = body\<rparr>,
      backoff_late = 0\<rparr>"

definition page_of :: "string option \<Rightarrow> ReadwiseDocument list \<Rightarrow> ReadwiseListResponse exchange" where
  "page_of cur docs =
     reply 200 ''OK'' None (Inr \<lparr>rl_count = length docs, nextPageCursor = cur, results = docs\<rparr>)"

definition net_at :: "int \<Rightarrow> 'a exchange list \<Rightarrow> 'a net" where
  "net_at t xs = \<lparr>clock = t, script = xs, sent = [], backoffs = []\<rparr>"

definition db_with :: "SyncState \<Rightarrow> Document list \<Rightarrow> db" where
  "db_with st rows = \<lparr>apiToken = Some ''tok'', syncState = Some st, documents = rows\<rparr>"

definition state_of :: "status \<Rightarrow> string option \<Rightarrow> jsdate option \<Rightarrow> nat \<Rightarrow> string option \<Rightarrow> SyncState" where
  "state_of s cur synced k msg =
     \<lparr>status = s, lastCursor = cur, lastSyncAt = synced, totalSynced = k, errorMsg = msg\<rparr>"

definition get_req :: request where
  "get_req = \<lparr>req_method = ''GET'', req_path = ''/v2/auth/'', req_query = [], req_body = []\<rparr>"

definition throttled_once :: "unit exchange list" where
  "throttled_once =
     [reply 429 ''Too Many Requests'' None (Inl ''no body''),
      reply 204 ''No Content'' None (Inl ''no body''),
      reply 204 ''No Content'' None (Inl ''no body''),
      reply 204 ''No Content'' None (Inl ''no body'')]"

definition throttled_twice :: "unit exchange list" where
  "throttled_twice =
     [reply 429 ''Too Many Requests'' (Some ''7'') (Inl ''no body''),
      reply 429 ''Too Many Requests'' None (Inl ''no body'')]"

definition failing_server :: "unit exchange list" where
  "failing_server = replicate 4 (reply 500 ''Internal Server Error'' None (Inl ''no body''))"

definition not_found :: "unit exchange list" where
  "not_found = [reply 404 ''Not Found'' None (Inl ''no body'')]"

text \<open>A 429 with the given Retry-After value, then a success.\<close>

definition throttled_by :: "string \<Rightarrow> unit exchange list" where
  "throttled_by after =
     [reply 429 ''Too Many Requests'' (Some after) (Inl ''no body''),
      reply 204 ''No Content'' None (Inl ''no body'')]"

definition two_pages :: "ReadwiseListResponse exchange list" where
  "two_pages = [page_of (Some ''C2'') [sample_doc ''a''], page_of None [sample_doc ''b'']]"

definition db_synced_before :: db where
  "db_synced_before = db_with (state_of Idle None (Some (DateAt 1000)) 0 None) []"

definition rejects_b :: "Document \<Rightarrow> exn option" where
  "rejects_b doc = (if readwiseId doc = ''b'' then Some (JsError ''Unique constraint failed'') else None)"

definition after_partial_failure :: db where
  "after_partial_failure =
     fst (snd (syncNextBatch rejects_b (db_with (state_of Syncing None None 0 None) [])
                 (net_at 5000 [page_of None [sample_doc ''a'', sample_doc ''b'']])))"

definition accepted :: "string \<Rightarrow> (string \<times> string) exchange" where
  "accepted ident = reply 200 ''OK'' None (Inr (ident, ''https://read.readwise.io/read/'' @ ident))"

definition refused :: "(string \<times> string) exchange" where
  "refused = reply 403 ''Forbidden'' None (Inl ''no body'')"

definition library :: "string list \<Rightarrow> db" where
  "library ids =
     \<lparr>apiToken = Some ''tok'',
      syncState = Some (state_of Idle None (Some (DateAt 1000)) (length ids) None),
      documents = map (\<lambda>i. transformDocument (sample_doc i)) ids\<rparr>"

definition placement :: "db \<Rightarrow> (string \<times> string \<times> jsdate option) list" where
  "placement d = map (\<lambda>row. (readwiseId row, location row, lastMovedAt row)) (documents d)"


section \<open>Properties of the API client\<close>

subsection \<open>Unfolding one round\<close>

lemma rateLimitedFetch_Nil:
  "script n = [] \<Longrightarrow> rateLimitedFetch req rc c n = (Pending, c, n)"
  by (subst rateLimitedFetch.simps) simp

lemma rateLimitedFetch_Cons:
  assumes "script n = x # rest"
  shows "rateLimitedFetch req rc c n =
     (case outcome x of
        Inl msg \<Rightarrow> (Rejected (JsError msg), c\<lparr>lastRequestTime := send_time c n x\<rparr>, after_send req c n x rest)
      | Inr response \<Rightarrow>
          if resp_status response = 429 then
            rateLimitedFetch req rc (c\<lparr>lastRequestTime := send_time c n x\<rparr>)
              (after_backoff 429 (throttle_wait (retryAfter response)) x (after_send req c n x rest))
          else if resp_status response = 500 \<and> rc < 3 then
            rateLimitedFetch req (rc + 1) (c\<lparr>lastRequestTime := send_time c n x\<rparr>)
              (after_backoff 500 (Num (2 ^ rc * 2000)) x (after_send req c n x rest))
          else (Resolved response, c\<lparr>lastRequestTime := send_time c n x\<rparr>, after_send req c n x rest))"
  by (subst rateLimitedFetch.simps)
     (simp add: assms Let_def sleep_def send_time_def after_send_def after_backoff_def
                throttle_wait_def truthy_def minRequestInterval_def
           split: sum.splits option.splits)

lemma timer_delay_pos: "0 < timer_delay w"
  by (auto simp: timer_delay_def split: jsnum.splits)

lemma send_time_ge:
  "lastRequestTime c \<le> clock n \<Longrightarrow>
     lastRequestTime c + minRequestInterval \<le> send_time c n x \<and> clock n \<le> send_time c n x"
  by (auto simp: send_time_def timer_delay_def minRequestInterval_def)

lemma rateLimitedFetch_requests:
  "script n = xs \<Longrightarrow>
   \<exists>ts. sent (snd (snd (rateLimitedFetch req rc c n)))
           = sent n @ map (\<lambda>t. (t, ''Token '' @ token c, req)) ts
      \<and> (xs \<noteq> [] \<longrightarrow> ts \<noteq> [])
      \<and> token (fst (snd (rateLimitedFetch req rc c n))) = token c"
proof (induction xs arbitrary: rc c n)
  case Nil
  then show ?case by (simp add: rateLimitedFetch_Nil)
next
  case (Cons x rest)
  let ?c1 = "c\<lparr>lastRequestTime := send_time c n x\<rparr>"
  let ?n2 = "after_send req c n x rest"
  have sc: "\<And>code w. script (after_backoff code w x ?n2) = rest"
    by (simp add: after_backoff_def after_send_def)
  have step: "\<And>code w rc'. \<exists>ts. sent (snd (snd (rateLimitedFetch req rc' ?c1 (after_backoff code w x ?n2))))
           = sent n @ map (\<lambda>t. (t, ''Token '' @ token c, req)) (send_time c n x # ts)
         \<and> token (fst (snd (rateLimitedFetch req rc' ?c1 (after_backoff code w x ?n2)))) = token c"
  proof -
    fix code w rc'
    from Cons.IH[OF sc, of rc' ?c1 code w]
    obtain ts where "sent (snd (snd (rateLimitedFetch req rc' ?c1 (after_backoff code w x ?n2))))
           = sent (after_backoff code w x ?n2) @ map (\<lambda>t. (t, ''Token '' @ token ?c1, req)) ts"
       and "token (fst (snd (rateLimitedFetch req rc' ?c1 (after_backoff code w x ?n2)))) = token ?c1"
      by blast
    then show "\<exists>ts. sent (snd (snd (rateLimitedFetch req rc' ?c1 (after_backoff code w x ?n2))))
           = sent n @ map (\<lambda>t. (t, ''Token '' @ token c, req)) (send_time c n x # ts)
         \<and> token (fst (snd (rateLimitedFetch req rc' ?c1 (after_backoff code w x ?n2)))) = token c"
      by (auto simp: after_backoff_def after_send_def)
  qed
  show ?case
  proof (cases "outcome x")
    case (Inl msg)
    then show ?thesis using Cons.prems
      by (auto simp: rateLimitedFetch_Cons after_send_def intro: exI[of _ "[send_time c n x]"])
  next
    case (Inr response)
    consider (throttle) "resp_status response = 429"
      | (retry) "resp_status response \<noteq> 429" "resp_status response = 500 \<and> rc < 3"
      | (final) "resp_status response \<noteq> 429" "\<not> (resp_status response = 500 \<and> rc < 3)"
      by blast
    then show ?thesis
    proof cases
      case throttle
      from step[of rc 429 "throttle_wait (retryAfter response)"] obtain ts where
        "sent (snd (snd (rateLimitedFetch req rc ?c1
            (after_backoff 429 (throttle_wait (retryAfter response)) x ?n2))))
           = sent n @ map (\<lambda>t. (t, ''Token '' @ token c, req)) (send_time c n x # ts)
         \<and> token (fst (snd (rateLimitedFetch req rc ?c1
            (after_backoff 429 (throttle_wait (retryAfter response)) x ?n2)))) = token c"
        by blast
      then show ?thesis using Cons.prems Inr throttle
        by (intro exI[of _ "send_time c n x # ts"]) (simp add: rateLimitedFetch_Cons)
    next
      case retry
      from step[of "rc + 1" 500 "Num (2 ^ rc * 2000)"] obtain ts where
        "sent (snd (snd (rateLimitedFetch req (rc + 1) ?c1
            (after_backoff 500 (Num (2 ^ rc * 2000)) x ?n2))))
           = sent n @ map (\<lambda>t. (t, ''Token '' @ token c, req)) (send_time c n x # ts)
         \<and> token (fst (snd (rateLimitedFetch req (rc + 1) ?c1
            (after_backoff 500 (Num (2 ^ rc * 2000)) x ?n2)))) = token c"
        by blast
      then show ?thesis using Cons.prems Inr retry
        by (intro exI[of _ "send_time c n x # ts"]) (simp add: rateLimitedFetch_Cons)
    next
      case final
      then show ?thesis using Cons.prems Inr
        by (auto simp: rateLimitedFetch_Cons after_send_def intro: exI[of _ "[send_time c n x]"])
    qed
  qed
qed

lemma spaced_Cons2: "spaced (a # b # ts) = (a + minRequestInterval \<le> b \<and> spaced (b # ts))"
  by (simp add: spaced_def)

lemma spaced_single: "spaced [a]"
  by (simp add: spaced_def)

lemma spaced_append:
  "spaced (a # ts) \<Longrightarrow> spaced (last (a # ts) # us) \<Longrightarrow> spaced (a # ts @ us)"
proof (induction ts arbitrary: a)
  case Nil
  then show ?case by simp
next
  case (Cons b ts)
  then show ?case by (simp add: spaced_Cons2)
qed

lemma rateLimitedFetch_paced:
  "script n = xs \<Longrightarrow> lastRequestTime c \<le> clock n \<Longrightarrow>
   \<exists>ts. map fst (sent (snd (snd (rateLimitedFetch req rc c n)))) = map fst (sent n) @ ts
      \<and> spaced (lastRequestTime c # ts)
      \<and> lastRequestTime (fst (snd (rateLimitedFetch req rc c n))) = last (lastRequestTime c # ts)
      \<and> lastRequestTime (fst (snd (rateLimitedFetch req rc c n)))
          \<le> clock (snd (snd (rateLimitedFetch req rc c n)))
      \<and> (xs \<noteq> [] \<longrightarrow> ts \<noteq> [] \<and> hd ts = send_time c n (hd xs))"
proof (induction xs arbitrary: rc c n)
  case Nil
  then show ?case by (simp add: rateLimitedFetch_Nil spaced_single)
next
  case (Cons x rest)
  let ?t = "send_time c n x"
  let ?c1 = "c\<lparr>lastRequestTime := ?t\<rparr>"
  let ?n2 = "after_send req c n x rest"
  have ge: "lastRequestTime c + minRequestInterval \<le> ?t"
    using send_time_ge[OF Cons.prems(2)] by simp
  have one: "spaced [lastRequestTime c, ?t]"
    using ge by (simp add: spaced_Cons2 spaced_single)
  have step: "\<exists>ts. map fst (sent (snd (snd (rateLimitedFetch req rc' ?c1 (after_backoff code w x ?n2)))))
                 = map fst (sent n) @ ?t # ts
            \<and> spaced (lastRequestTime c # ?t # ts)
            \<and> lastRequestTime (fst (snd (rateLimitedFetch req rc' ?c1 (after_backoff code w x ?n2))))
                 = last (?t # ts)
            \<and> lastRequestTime (fst (snd (rateLimitedFetch req rc' ?c1 (after_backoff code w x ?n2))))
                 \<le> clock (snd (snd (rateLimitedFetch req rc' ?c1 (after_backoff code w x ?n2))))"
    for code w rc'
  proof -
    let ?n3 = "after_backoff code w x ?n2"
    have sc: "script ?n3 = rest" by (simp add: after_backoff_def after_send_def)
    have le: "lastRequestTime ?c1 \<le> clock ?n3"
      using timer_delay_pos[of w] by (simp add: after_backoff_def after_send_def)
    from Cons.IH[OF sc le, of rc'] obtain ts where
      a: "map fst (sent (snd (snd (rateLimitedFetch req rc' ?c1 ?n3)))) = map fst (sent ?n3) @ ts"
      and b: "spaced (lastRequestTime ?c1 # ts)"
      and c: "lastRequestTime (fst (snd (rateLimitedFetch req rc' ?c1 ?n3))) = last (lastRequestTime ?c1 # ts)"
      and d: "lastRequestTime (fst (snd (rateLimitedFetch req rc' ?c1 ?n3)))
                \<le> clock (snd (snd (rateLimitedFetch req rc' ?c1 ?n3)))"
      by blast
    have a': "map fst (sent (snd (snd (rateLimitedFetch req rc' ?c1 ?n3)))) = map fst (sent n) @ ?t # ts"
      using a by (simp add: after_backoff_def after_send_def)
    have b': "spaced (lastRequestTime c # ?t # ts)"
      using b ge by (simp add: spaced_Cons2)
    have c': "lastRequestTime (fst (snd (rateLimitedFetch req rc' ?c1 ?n3))) = last (?t # ts)"
      using c by simp
    from a' b' c' d show ?thesis by blast
  qed
  have stop: "map fst (sent ?n2) = map fst (sent n) @ [?t] \<and> lastRequestTime ?c1 \<le> clock ?n2"
    by (simp add: after_send_def)
  show ?case
  proof (cases "outcome x")
    case (Inl msg)
    then show ?thesis using Cons.prems(1) stop one
      by (intro exI[of _ "[?t]"]) (simp add: rateLimitedFetch_Cons)
  next
    case (Inr response)
    consider (throttle) "resp_status response = 429"
      | (retry) "resp_status response \<noteq> 429" "resp_status response = 500 \<and> rc < 3"
      | (final) "resp_status response \<noteq> 429" "\<not> (resp_status response = 500 \<and> rc < 3)"
      by blast
    then show ?thesis
    proof cases
      case throttle
      from step[of rc 429 "throttle_wait (retryAfter response)"] obtain ts where
        h: "map fst (sent (snd (snd (rateLimitedFetch req rc ?c1
                (after_backoff 429 (throttle_wait (retryAfter response)) x ?n2)))))
                 = map fst (sent n) @ ?t # ts
            \<and> spaced (lastRequestTime c # ?t # ts)
            \<and> lastRequestTime (fst (snd (rateLimitedFetch req rc ?c1
                (after_backoff 429 (throttle_wait (retryAfter response)) x ?n2))))
                 = last (?t # ts)
            \<and> lastRequestTime (fst (snd (rateLimitedFetch req rc ?c1
                (after_backoff 429 (throttle_wait (retryAfter response)) x ?n2))))
                 \<le> clock (snd (snd (rateLimitedFetch req rc ?c1
                (after_backoff 429 (throttle_wait (retryAfter response)) x ?n2))))"
        by blast
      then show ?thesis using Cons.prems(1) Inr throttle
        by (intro exI[of _ "?t # ts"]) (simp add: rateLimitedFetch_Cons)
    next
      case retry
      from step[of "rc + 1" 500 "Num (2 ^ rc * 2000)"] obtain ts where
        h: "map fst (sent (snd (snd (rateLimitedFetch req (rc + 1) ?c1
                (after_backoff 500 (Num (2 ^ rc * 2000)) x ?n2)))))
                 = map fst (sent n) @ ?t # ts
            \<and> spaced (lastRequestTime c # ?t # ts)
            \<and> lastRequestTime (fst (snd (rateLimitedFetch req (rc + 1) ?c1
                (after_backoff 500 (Num (2 ^ rc * 2000)) x ?n2))))
                 = last (?t # ts)
            \<and> lastRequestTime (fst (snd (rateLimitedFetch req (rc + 1) ?c1
                (after_backoff 500 (Num (2 ^ rc * 2000)) x ?n2))))
                 \<le> clock (snd (snd (rateLimitedFetch req (rc + 1) ?c1
                (after_backoff 500 (Num (2 ^ rc * 2000)) x ?n2))))"
        by blast
      then show ?thesis using Cons.prems(1) Inr retry
        by (intro exI[of _ "?t # ts"]) (simp add: rateLimitedFetch_Cons)
    next
      case final
      then show ?thesis using Cons.prems(1) Inr stop one
        by (intro exI[of _ "[?t]"]) (auto simp add: rateLimitedFetch_Cons)
    qed
  qed
qed

lemma calls_paced:
  "lastRequestTime c \<le> clock n \<Longrightarrow>
   \<exists>ts. map fst (sent (snd (calls cs c n))) = map fst (sent n) @ ts
      \<and> spaced (lastRequestTime c # ts)
      \<and> lastRequestTime (fst (calls cs c n)) = last (lastRequestTime c # ts)
      \<and> lastRequestTime (fst (calls cs c n)) \<le> clock (snd (calls cs c n))"
proof (induction cs arbitrary: c n)
  case Nil
  then show ?case by (simp add: spaced_single)
next
  case (Cons call later)
  obtain idle req where call: "call = (idle, req)" by (cases call)
  let ?n0 = "n\<lparr>clock := clock n + int idle\<rparr>"
  let ?c1 = "fst (snd (rateLimitedFetch req 0 c ?n0))"
  let ?n1 = "snd (snd (rateLimitedFetch req 0 c ?n0))"
  have le0: "lastRequestTime c \<le> clock ?n0" using Cons.prems by simp
  from rateLimitedFetch_paced[OF refl le0, of req 0] obtain ts where
    a: "map fst (sent ?n1) = map fst (sent ?n0) @ ts"
    and b: "spaced (lastRequestTime c # ts)"
    and c: "lastRequestTime ?c1 = last (lastRequestTime c # ts)"
    and d: "lastRequestTime ?c1 \<le> clock ?n1"
    by blast
  from Cons.IH[OF d] obtain us where
    a2: "map fst (sent (snd (calls later ?c1 ?n1))) = map fst (sent ?n1) @ us"
    and b2: "spaced (lastRequestTime ?c1 # us)"
    and c2: "lastRequestTime (fst (calls later ?c1 ?n1)) = last (lastRequestTime ?c1 # us)"
    and d2: "lastRequestTime (fst (calls later ?c1 ?n1)) \<le> clock (snd (calls later ?c1 ?n1))"
    by blast
  have run: "calls (call # later) c n = calls later ?c1 ?n1"
    by (simp add: call split: prod.splits)
  have "spaced (lastRequestTime c # ts @ us)"
    using spaced_append[OF b] b2 c by simp
  moreover have "last (lastRequestTime c # ts @ us) = last (lastRequestTime ?c1 # us)"
    using c by (cases us) auto
  ultimately show ?case
    using a a2 c2 d2 unfolding run
    by (intro exI[of _ "ts @ us"]) simp
qed

lemma throttled_forever:
  "script n = xs \<Longrightarrow> list_all (answers 429) xs \<Longrightarrow>
     fst (rateLimitedFetch req rc c n) = Pending
   \<and> script (snd (snd (rateLimitedFetch req rc c n))) = []
   \<and> length (sent (snd (snd (rateLimitedFetch req rc c n)))) = length (sent n) + length xs
   \<and> backoffs (snd (snd (rateLimitedFetch req rc c n))) = backoffs n @ map throttle_backoff xs"
proof (induction xs arbitrary: c n)
  case Nil
  then show ?case by (simp add: rateLimitedFetch_Nil)
next
  case (Cons x rest)
  from Cons.prems(2) obtain response where
    r: "outcome x = Inr response" "resp_status response = 429"
    by (auto simp: answers_def split: sum.splits)
  let ?c1 = "c\<lparr>lastRequestTime := send_time c n x\<rparr>"
  let ?n3 = "after_backoff 429 (throttle_wait (retryAfter response)) x (after_send req c n x rest)"
  have sc: "script ?n3 = rest" by (simp add: after_backoff_def after_send_def)
  have rest: "list_all (answers 429) rest" using Cons.prems(2) by simp
  have unfold: "rateLimitedFetch req rc c n = rateLimitedFetch req rc ?c1 ?n3"
    using Cons.prems(1) r by (simp add: rateLimitedFetch_Cons)
  from Cons.IH[OF sc rest, of ?c1] show ?case
    unfolding unfold using r
    by (simp add: after_backoff_def after_send_def throttle_backoff_def)
qed

lemma upt_3: "rc < 3 \<Longrightarrow> [rc..<3] = rc # [Suc rc..<3]"
  by (simp add: upt_conv_Cons)

lemma retries_bounded:
  "script n = xs \<Longrightarrow>
   \<exists>bs. backoffs (snd (snd (rateLimitedFetch req rc c n))) = backoffs n @ bs
      \<and> prefix (filter (\<lambda>b. fst b = 500) bs) (server_error_backoffs rc)
      \<and> (\<forall>response. fst (rateLimitedFetch req rc c n) = Resolved response \<longrightarrow>
            resp_status response \<noteq> 429
          \<and> (resp_status response = 500 \<longrightarrow>
                filter (\<lambda>b. fst b = 500) bs = server_error_backoffs rc))"
proof (induction xs arbitrary: rc c n)
  case Nil
  then show ?case by (simp add: rateLimitedFetch_Nil)
next
  case (Cons x rest)
  let ?c1 = "c\<lparr>lastRequestTime := send_time c n x\<rparr>"
  let ?n2 = "after_send req c n x rest"
  show ?case
  proof (cases "outcome x")
    case (Inl msg)
    then show ?thesis using Cons.prems
      by (simp add: rateLimitedFetch_Cons after_send_def)
  next
    case (Inr response)
    consider (throttle) "resp_status response = 429"
      | (retry) "resp_status response \<noteq> 429" "resp_status response = 500" "rc < 3"
      | (final) "resp_status response \<noteq> 429" "\<not> (resp_status response = 500 \<and> rc < 3)"
      by blast
    then show ?thesis
    proof cases
      case throttle
      let ?n3 = "after_backoff 429 (throttle_wait (retryAfter response)) x ?n2"
      have sc: "script ?n3 = rest" by (simp add: after_backoff_def after_send_def)
      have unfold: "rateLimitedFetch req rc c n = rateLimitedFetch req rc ?c1 ?n3"
        using Cons.prems Inr throttle by (simp add: rateLimitedFetch_Cons)
      from Cons.IH[OF sc, of rc ?c1] obtain bs where
        a: "backoffs (snd (snd (rateLimitedFetch req rc ?c1 ?n3))) = backoffs ?n3 @ bs"
        and b: "prefix (filter (\<lambda>b. fst b = 500) bs) (server_error_backoffs rc)"
        and c: "\<forall>response. fst (rateLimitedFetch req rc ?c1 ?n3) = Resolved response \<longrightarrow>
            resp_status response \<noteq> 429
          \<and> (resp_status response = 500 \<longrightarrow>
                filter (\<lambda>b. fst b = 500) bs = server_error_backoffs rc)"
        by blast
      show ?thesis
        unfolding unfold using a b c
        by (intro exI[of _ "(429, throttle_wait (retryAfter response)) # bs"])
           (simp add: after_backoff_def after_send_def)
    next
      case retry
      let ?n3 = "after_backoff 500 (Num (2 ^ rc * 2000)) x ?n2"
      have sc: "script ?n3 = rest" by (simp add: after_backoff_def after_send_def)
      have unfold: "rateLimitedFetch req rc c n = rateLimitedFetch req (rc + 1) ?c1 ?n3"
        using Cons.prems Inr retry by (simp add: rateLimitedFetch_Cons)
      have budget: "server_error_backoffs rc = (500, Num (2 ^ rc * 2000)) # server_error_backoffs (rc + 1)"
        using retry(3) by (simp add: server_error_backoffs_def upt_3)
      from Cons.IH[OF sc, of "rc + 1" ?c1] obtain bs where
        a: "backoffs (snd (snd (rateLimitedFetch req (rc + 1) ?c1 ?n3))) = backoffs ?n3 @ bs"
        and b: "prefix (filter (\<lambda>b. fst b = 500) bs) (server_error_backoffs (rc + 1))"
        and c: "\<forall>response. fst (rateLimitedFetch req (rc + 1) ?c1 ?n3) = Resolved response \<longrightarrow>
            resp_status response \<noteq> 429
          \<and> (resp_status response = 500 \<longrightarrow>
                filter (\<lambda>b. fst b = 500) bs = server_error_backoffs (rc + 1))"
        by blast
      show ?thesis
        unfolding unfold budget using a b c
        by (intro exI[of _ "(500, Num (2 ^ rc * 2000)) # bs"])
           (simp add: after_backoff_def after_send_def)
    next
      case final
      have spent: "resp_status response = 500 \<Longrightarrow> server_error_backoffs rc = []"
        using final(2) by (simp add: server_error_backoffs_def)
      have unfold: "rateLimitedFetch req rc c n = (Resolved response, ?c1, ?n2)"
        using Cons.prems Inr final by (auto simp: rateLimitedFetch_Cons)
      show ?thesis
        unfolding unfold using final(1) spent
        by (intro exI[of _ "[]"]) (simp add: after_send_def)
    qed
  qed
qed

lemma surfaced_immediately:
  assumes "script n = x # rest" "outcome x = Inr response"
      and "resp_status response \<noteq> 429" "resp_status response \<noteq> 500"
  shows "rateLimitedFetch req rc c n =
           (Resolved response, c\<lparr>lastRequestTime := send_time c n x\<rparr>, after_send req c n x rest)"
  using assms by (simp add: rateLimitedFetch_Cons)

lemma server_error_cap:
  assumes "script n = x1 # x2 # x3 # x4 # rest"
      and "answers 500 x1" "answers 500 x2" "answers 500 x3" "outcome x4 = Inr response"
      and "resp_status response = 500"
  shows "fst (rateLimitedFetch req 0 c n) = Resolved response
       \<and> script (snd (snd (rateLimitedFetch req 0 c n))) = rest
       \<and> length (sent (snd (snd (rateLimitedFetch req 0 c n)))) = length (sent n) + 4
       \<and> backoffs (snd (snd (rateLimitedFetch req 0 c n)))
           = backoffs n @ [(500, Num 2000), (500, Num 4000), (500, Num 8000)]"
proof -
  from assms(2-4) obtain r1 r2 r3 where
    r: "outcome x1 = Inr r1" "resp_status r1 = 500"
       "outcome x2 = Inr r2" "resp_status r2 = 500"
       "outcome x3 = Inr r3" "resp_status r3 = 500"
    by (auto simp: answers_def split: sum.splits)
  show ?thesis
    using assms(1,5,6) r
    by (simp add: rateLimitedFetch_Cons after_backoff_def after_send_def)
qed

subsection \<open>Rate-limit spacing\<close>

text \<open>
  Claim C5. For every sequence of calls made one after the other through one client, with
  any idle time between them, any network latency and timers that never fire early, the
  send times of successive requests (retries included) are at least \<open>minRequestInterval\<close>
  (3000 ms) apart, the first of them at least that long after the client's previous
  \<open>lastRequestTime\<close>; \<open>lastRequestTime\<close> ends as the send time of the last request, not
  the time of its response. A call that starts less than the interval after
  \<open>lastRequestTime\<close> sends exactly when the remainder has elapsed (plus the timer's
  lateness), otherwise at once. Backoff waits enter only through the clock, so they can
  only widen the gaps.
\<close>

theorem rate_limit_spacing:
  assumes "lastRequestTime c \<le> clock n"
  shows "(\<exists>ts. map fst (sent (snd (calls cs c n))) = map fst (sent n) @ ts
            \<and> spaced (lastRequestTime c # ts)
            \<and> lastRequestTime (fst (calls cs c n)) = last (lastRequestTime c # ts))
       \<and> (\<forall>x rest. script n = x # rest \<longrightarrow>
            (\<exists>ts. map fst (sent (snd (snd (rateLimitedFetch req rc c n))))
                    = map fst (sent n)
                      @ (if clock n - lastRequestTime c < minRequestInterval
                         then lastRequestTime c + minRequestInterval + int (wake_late x)
                         else clock n) # ts))"
proof (intro conjI allI impI)
  from calls_paced[OF assms, of cs]
  show "\<exists>ts. map fst (sent (snd (calls cs c n))) = map fst (sent n) @ ts
            \<and> spaced (lastRequestTime c # ts)
            \<and> lastRequestTime (fst (calls cs c n)) = last (lastRequestTime c # ts)"
    by blast
next
  fix x rest
  assume sc: "script n = x # rest"
  have t: "send_time c n x = (if clock n - lastRequestTime c < minRequestInterval
                         then lastRequestTime c + minRequestInterval + int (wake_late x)
                         else clock n)"
    using assms by (simp add: send_time_def timer_delay_def minRequestInterval_def)
  from rateLimitedFetch_paced[OF sc assms, of req rc] obtain ts where
    a: "map fst (sent (snd (snd (rateLimitedFetch req rc c n)))) = map fst (sent n) @ ts"
    and b: "ts \<noteq> []" "hd ts = send_time c n x"
    by auto
  from b have "ts = send_time c n x # tl ts" by (cases ts) auto
  with a have "map fst (sent (snd (snd (rateLimitedFetch req rc c n))))
                 = map fst (sent n) @ send_time c n x # tl ts"
    by simp
  then show "\<exists>ts. map fst (sent (snd (snd (rateLimitedFetch req rc c n))))
                    = map fst (sent n)
                      @ (if clock n - lastRequestTime c < minRequestInterval
                         then lastRequestTime c + minRequestInterval + int (wake_late x)
                         else clock n) # ts"
    unfolding t by (rule exI)
qed

theorem rate_limit_spacing_witness:
  "lastRequestTime (createReadwiseClient ''tok'') \<le> clock (net_at 10000 throttled_once)
   \<and> map fst (sent (snd (calls [(0, get_req), (100, get_req), (5000, get_req)]
       (createReadwiseClient ''tok'') (net_at 10000 throttled_once))))
     = [10000, 16050, 19050, 24100]
   \<and> spaced [0, 10000, 16050, 19050, 24100]
   \<and> lastRequestTime (fst (calls [(0, get_req), (100, get_req), (5000, get_req)]
       (createReadwiseClient ''tok'') (net_at 10000 throttled_once))) = 24100"
proof -
  let ?c = "createReadwiseClient ''tok''"
  let ?n = "net_at 10000 throttled_once"
  let ?cs = "[(0, get_req), (100, get_req), (5000, get_req)]"
  have h: "lastRequestTime ?c \<le> clock ?n"
    by (simp add: createReadwiseClient_def net_at_def)
  have ex: "map fst (sent (snd (calls ?cs ?c ?n))) = [10000, 16050, 19050, 24100]"
    by code_simp
  from rate_limit_spacing[OF h, of ?cs] obtain ts where
    a: "map fst (sent (snd (calls ?cs ?c ?n))) = map fst (sent ?n) @ ts"
    and b: "spaced (lastRequestTime ?c # ts)"
    and c: "lastRequestTime (fst (calls ?cs ?c ?n)) = last (lastRequestTime ?c # ts)"
    by blast
  from a ex have ts: "ts = [10000, 16050, 19050, 24100]" by (simp add: net_at_def)
  have c0: "lastRequestTime ?c = 0" by (simp add: createReadwiseClient_def)
  from b c h show ?thesis
    unfolding ts c0 using ex by simp
qed

subsection \<open>Reading a Retry-After value\<close>

lemma decimal_char_of: "d < 10 \<Longrightarrow> decimal (char_of (48 + d :: nat))"
  by (simp add: decimal_def)

lemma digit_of_char_of: "d < 10 \<Longrightarrow> digit_of 10 (char_of (48 + d :: nat)) = Some d"
  by (simp add: digit_of_def Let_def)

lemma decimal_digit_of: "decimal ch \<Longrightarrow> digit_of 10 ch \<noteq> None"
  by (auto simp: decimal_def digit_of_def Let_def)

lemma decimal_not_space: "decimal ch \<Longrightarrow> \<not> is_space ch"
  by (auto simp: decimal_def is_space_def)

lemma decimal_not_sign: "decimal ch \<Longrightarrow> ch \<noteq> CHR ''-'' \<and> ch \<noteq> CHR ''+'' \<and> ch \<noteq> CHR ''x'' \<and> ch \<noteq> CHR ''X''"
  by (auto simp: decimal_def)

lemma string_of_nat_digits:
  "string_of_nat k \<noteq> []
   \<and> list_all decimal (string_of_nat k)
   \<and> foldl (\<lambda>a ch. a * 10 + int (the (digit_of 10 ch))) 0 (string_of_nat k) = int k"
proof (induction k rule: string_of_nat.induct)
  case (1 n)
  show ?case
  proof (cases "n < 10")
    case True
    then show ?thesis
      by (subst (1 2 3) string_of_nat.simps) (simp add: digit_of_char_of decimal_char_of)
  next
    case False
    have m: "n mod 10 < 10" by simp
    have d: "int (n div 10) * 10 + int (n mod 10) = int n" by presburger
    from 1[OF False] False d show ?thesis
      by (subst (1 2 3) string_of_nat.simps)
         (simp add: digit_of_char_of[OF m] decimal_char_of[OF m])
  qed
qed

lemma parseInt_decimal:
  assumes "s \<noteq> []" "list_all decimal s"
  shows "parseInt s = exact True (foldl (\<lambda>a ch. a * 10 + int (the (digit_of 10 ch))) 0 s)"
proof -
  obtain a rest where s: "s = a # rest" using assms(1) by (cases s) auto
  have a: "decimal a" using assms(2) s by simp
  have nospace: "dropWhile is_space s = s"
    using a decimal_not_space s by simp
  have t1: "take 1 s = [a]" using s by simp
  have nosign: "take 1 s \<noteq> ''-''" "take 1 s \<noteq> ''+''"
    using decimal_not_sign[OF a] t1 by simp_all
  have nohex: "take 2 s \<noteq> ''0x''" "take 2 s \<noteq> ''0X''"
  proof -
    show "take 2 s \<noteq> ''0x''"
    proof (cases rest)
      case Nil
      then show ?thesis using s by simp
    next
      case (Cons b rest')
      then have "decimal b" using assms(2) s by simp
      then show ?thesis using decimal_not_sign[of b] s Cons by auto
    qed
    show "take 2 s \<noteq> ''0X''"
    proof (cases rest)
      case Nil
      then show ?thesis using s by simp
    next
      case (Cons b rest')
      then have "decimal b" using assms(2) s by simp
      then show ?thesis using decimal_not_sign[of b] s Cons by auto
    qed
  qed
  have all: "takeWhile (\<lambda>c. \<exists>y. digit_of 10 c = Some y) s = s"
    using assms(2) decimal_digit_of by (simp add: list_all_iff takeWhile_eq_all_conv)
  show ?thesis
    using assms(1) nosign nohex
    by (simp add: parseInt_def Let_def nospace all)
qed

lemma parseInt_string_of_nat:
  "int k \<le> 9007199254740992 \<Longrightarrow> parseInt (string_of_nat k) = Num (int k)"
  using string_of_nat_digits[of k] parseInt_decimal[of "string_of_nat k"]
  by (simp add: exact_def)

lemma timer_delay_times_1000:
  "timer_delay (times_1000 v)
     = (case v of
          NaN \<Rightarrow> 1
        | Num k \<Rightarrow> if 1 \<le> k \<and> k \<le> 2147483 then k * 1000 else 1
        | Beyond positive \<Rightarrow> 1)"
  by (auto simp: timer_delay_def times_1000_def exact_def split: jsnum.splits)

lemma timer_delay_throttle_wait:
  "h \<noteq> [] \<Longrightarrow>
     timer_delay (throttle_wait (Some h))
       = (case parseInt h of
            NaN \<Rightarrow> 1
          | Num k \<Rightarrow> if 1 \<le> k \<and> k \<le> 2147483 then k * 1000 else 1
          | Beyond positive \<Rightarrow> 1)"
  by (simp add: throttle_wait_def truthy_def timer_delay_times_1000)

lemma timer_delay_default:
  "timer_delay (throttle_wait None) = 2 * minRequestInterval
   \<and> timer_delay (throttle_wait (Some '''')) = 2 * minRequestInterval"
  by (simp add: throttle_wait_def truthy_def timer_delay_def minRequestInterval_def)

subsection \<open>The clock between retries\<close>

lemma send_time_retry:
  assumes "lastRequestTime c = t" "clock n = t + gap" "0 < gap"
  shows "send_time c n y
           = (if gap < minRequestInterval then t + minRequestInterval + int (wake_late y)
              else t + gap)"
  using assms by (simp add: send_time_def timer_delay_def minRequestInterval_def)

lemma retried_after_Cons:
  assumes "rest = [] \<longrightarrow> ts = []"
      and "rest \<noteq> [] \<longrightarrow> ts \<noteq> []
             \<and> hd ts = (if int (latency x) + timer_delay (snd b) + int (backoff_late x) < minRequestInterval
                        then t + minRequestInterval + int (wake_late (hd rest))
                        else t + int (latency x) + timer_delay (snd b) + int (backoff_late x))"
      and "retried_after ts rest bs"
  shows "retried_after (t # ts) (x # rest) (b # bs)"
proof (cases rest)
  case Nil
  then show ?thesis using assms(1) by simp
next
  case (Cons y r)
  with assms(2) obtain u us where ts: "ts = u # us" by (cases ts) auto
  show ?thesis using assms(2,3) Cons ts by simp
qed

lemma rateLimitedFetch_timing:
  "script n = xs \<Longrightarrow>
   \<exists>ts bs. map fst (sent (snd (snd (rateLimitedFetch req rc c n)))) = map fst (sent n) @ ts
      \<and> backoffs (snd (snd (rateLimitedFetch req rc c n))) = backoffs n @ bs
      \<and> retried_after ts xs bs
      \<and> (xs = [] \<longrightarrow> ts = [])
      \<and> (xs \<noteq> [] \<longrightarrow> ts \<noteq> [] \<and> hd ts = send_time c n (hd xs))"
proof (induction xs arbitrary: rc c n)
  case Nil
  then show ?case by (simp add: rateLimitedFetch_Nil)
next
  case (Cons x rest)
  let ?t = "send_time c n x"
  let ?c1 = "c\<lparr>lastRequestTime := ?t\<rparr>"
  let ?n2 = "after_send req c n x rest"
  have step: "\<exists>ts bs. map fst (sent (snd (snd (rateLimitedFetch req rc' ?c1 (after_backoff code w x ?n2)))))
                   = map fst (sent n) @ ts
              \<and> backoffs (snd (snd (rateLimitedFetch req rc' ?c1 (after_backoff code w x ?n2))))
                   = backoffs n @ bs
              \<and> retried_after ts (x # rest) bs \<and> ts \<noteq> [] \<and> hd ts = ?t"
    for code w rc'
  proof -
    let ?n3 = "after_backoff code w x ?n2"
    let ?gap = "int (latency x) + timer_delay w + int (backoff_late x)"
    have sc: "script ?n3 = rest" by (simp add: after_backoff_def after_send_def)
    have pos: "0 < ?gap" using timer_delay_pos[of w] by simp
    have clk: "clock ?n3 = ?t + ?gap" by (simp add: after_backoff_def after_send_def)
    from Cons.IH[OF sc, where rc = rc' and c = ?c1] obtain ts bs where
      a: "map fst (sent (snd (snd (rateLimitedFetch req rc' ?c1 ?n3)))) = map fst (sent ?n3) @ ts"
      and b: "backoffs (snd (snd (rateLimitedFetch req rc' ?c1 ?n3))) = backoffs ?n3 @ bs"
      and r: "retried_after ts rest bs"
      and e: "rest = [] \<longrightarrow> ts = []"
      and h: "rest \<noteq> [] \<longrightarrow> ts \<noteq> [] \<and> hd ts = send_time ?c1 ?n3 (hd rest)"
      by blast
    have h': "rest \<noteq> [] \<longrightarrow> ts \<noteq> []
             \<and> hd ts = (if int (latency x) + timer_delay (snd (code, w)) + int (backoff_late x) < minRequestInterval
                        then ?t + minRequestInterval + int (wake_late (hd rest))
                        else ?t + int (latency x) + timer_delay (snd (code, w)) + int (backoff_late x))"
      using h send_time_retry[of ?c1 ?t ?n3 ?gap "hd rest"] clk pos by (simp add: add.assoc)
    have ra: "retried_after (?t # ts) (x # rest) ((code, w) # bs)"
      by (rule retried_after_Cons[OF e h' r])
    have a': "map fst (sent (snd (snd (rateLimitedFetch req rc' ?c1 ?n3)))) = map fst (sent n) @ ?t # ts"
      using a by (simp add: after_backoff_def after_send_def)
    have b': "backoffs (snd (snd (rateLimitedFetch req rc' ?c1 ?n3))) = backoffs n @ (code, w) # bs"
      using b by (simp add: after_backoff_def after_send_def)
    show ?thesis
      using a' b' ra by (intro exI[of _ "?t # ts"] exI[of _ "(code, w) # bs"]) simp
  qed
  have stop: "map fst (sent ?n2) = map fst (sent n) @ [?t] \<and> backoffs ?n2 = backoffs n @ []"
    by (simp add: after_send_def)
  show ?case
  proof (cases "outcome x")
    case (Inl msg)
    then show ?thesis using Cons.prems stop
      by (intro exI[of _ "[?t]"] exI[of _ "[]"]) (simp add: rateLimitedFetch_Cons)
  next
    case (Inr response)
    consider (throttle) "resp_status response = 429"
      | (retry) "resp_status response \<noteq> 429" "resp_status response = 500 \<and> rc < 3"
      | (final) "resp_status response \<noteq> 429" "\<not> (resp_status response = 500 \<and> rc < 3)"
      by blast
    then show ?thesis
    proof cases
      case throttle
      have u: "rateLimitedFetch req rc c n
                 = rateLimitedFetch req rc ?c1 (after_backoff 429 (throttle_wait (retryAfter response)) x ?n2)"
        using Cons.prems Inr throttle by (simp add: rateLimitedFetch_Cons)
      from step[where rc' = rc and code = 429 and w = "throttle_wait (retryAfter response)"] show ?thesis
        unfolding u by auto
    next
      case retry
      have u: "rateLimitedFetch req rc c n
                 = rateLimitedFetch req (rc + 1) ?c1 (after_backoff 500 (Num (2 ^ rc * 2000)) x ?n2)"
        using Cons.prems Inr retry by (simp add: rateLimitedFetch_Cons)
      from step[where rc' = "rc + 1" and code = 500 and w = "Num (2 ^ rc * 2000)"] show ?thesis
        unfolding u by auto
    next
      case final
      have u: "rateLimitedFetch req rc c n = (Resolved response, ?c1, ?n2)"
        using Cons.prems Inr final by (auto simp: rateLimitedFetch_Cons)
      show ?thesis
        unfolding u using stop by (intro exI[of _ "[?t]"] exI[of _ "[]"]) simp
    qed
  qed
qed

subsection \<open>Retry policy\<close>

text \<open>
  What one call does with the answers it meets. However many 429 responses come in a row,
  the call is still pending after them, having sent one request per response. A 500 is
  retried at most three times per call, with waits of 2000, 4000 and 8000 ms in this
  order, whatever 429 responses come in between; a 500 reaches the caller only after all
  three waits, and the fourth 500 in a row does reach it. A 429 never reaches the caller.
  Every other status reaches the caller at once: one request, no wait. Each retry goes out
  when its wait has run on the clock after the response, or when the rate limiter lets it,
  whichever is later. The wait after a 429 is \<open>k\<close> seconds for a Retry-After value that
  \<open>parseInt\<close> reads as \<open>k\<close> between 1 and 2147483, and twice the minimum interval without
  a value.
\<close>

lemma retry_rounds:
  "(list_all (answers 429) (script n) \<longrightarrow>
      fst (rateLimitedFetch req rc c n) = Pending
    \<and> requests_made n (snd (snd (rateLimitedFetch req rc c n))) = length (script n)
    \<and> new_backoffs n (snd (snd (rateLimitedFetch req rc c n))) = map throttle_backoff (script n))
 \<and> prefix (filter (\<lambda>b. fst b = 500) (new_backoffs n (snd (snd (rateLimitedFetch req 0 c n)))))
      [(500, Num 2000), (500, Num 4000), (500, Num 8000)]
 \<and> (\<forall>response. fst (rateLimitedFetch req 0 c n) = Resolved response \<longrightarrow>
        resp_status response \<noteq> 429
      \<and> (resp_status response = 500 \<longrightarrow>
            filter (\<lambda>b. fst b = 500) (new_backoffs n (snd (snd (rateLimitedFetch req 0 c n))))
              = [(500, Num 2000), (500, Num 4000), (500, Num 8000)]))
 \<and> (\<forall>x1 x2 x3 x4 rest response.
        script n = x1 # x2 # x3 # x4 # rest \<and> answers 500 x1 \<and> answers 500 x2
        \<and> answers 500 x3 \<and> outcome x4 = Inr response \<and> resp_status response = 500 \<longrightarrow>
          fst (rateLimitedFetch req 0 c n) = Resolved response
        \<and> requests_made n (snd (snd (rateLimitedFetch req 0 c n))) = 4
        \<and> new_backoffs n (snd (snd (rateLimitedFetch req 0 c n)))
            = [(500, Num 2000), (500, Num 4000), (500, Num 8000)])
 \<and> (\<forall>x rest response.
        script n = x # rest \<and> outcome x = Inr response
        \<and> resp_status response \<noteq> 429 \<and> resp_status response \<noteq> 500 \<longrightarrow>
          fst (rateLimitedFetch req rc c n) = Resolved response
        \<and> requests_made n (snd (snd (rateLimitedFetch req rc c n))) = 1
        \<and> new_backoffs n (snd (snd (rateLimitedFetch req rc c n))) = [])
 \<and> retried_after (new_send_times n (snd (snd (rateLimitedFetch req rc c n)))) (script n)
      (new_backoffs n (snd (snd (rateLimitedFetch req rc c n))))
 \<and> (int k \<le> 9007199254740992 \<longrightarrow> parseInt (string_of_nat k) = Num (int k))
 \<and> (h \<noteq> [] \<longrightarrow>
       timer_delay (throttle_wait (Some h))
         = (case parseInt h of
              NaN \<Rightarrow> 1
            | Num s \<Rightarrow> if 1 \<le> s \<and> s \<le> 2147483 then s * 1000 else 1
            | Beyond positive \<Rightarrow> 1))
 \<and> timer_delay (throttle_wait None) = 2 * minRequestInterval
 \<and> timer_delay (throttle_wait (Some '''')) = 2 * minRequestInterval
 \<and> map (\<lambda>b. timer_delay (snd b)) (server_error_backoffs 0) = [2000, 4000, 8000]"
proof -
  have budget: "server_error_backoffs 0 = [(500, Num 2000), (500, Num 4000), (500, Num 8000)]"
    by (simp add: server_error_backoffs_def upt_3)
  have p1: "list_all (answers 429) (script n) \<longrightarrow>
      fst (rateLimitedFetch req rc c n) = Pending
    \<and> requests_made n (snd (snd (rateLimitedFetch req rc c n))) = length (script n)
    \<and> new_backoffs n (snd (snd (rateLimitedFetch req rc c n))) = map throttle_backoff (script n)"
    using throttled_forever[OF refl, where n = n and req = req and rc = rc and c = c]
    by (simp add: requests_made_def new_backoffs_def)
  obtain bs where
    a: "backoffs (snd (snd (rateLimitedFetch req 0 c n))) = backoffs n @ bs"
    and b: "prefix (filter (\<lambda>b. fst b = 500) bs) (server_error_backoffs 0)"
    and c: "\<forall>response. fst (rateLimitedFetch req 0 c n) = Resolved response \<longrightarrow>
            resp_status response \<noteq> 429
          \<and> (resp_status response = 500 \<longrightarrow>
                filter (\<lambda>b. fst b = 500) bs = server_error_backoffs 0)"
    using retries_bounded[OF refl, where n = n and req = req and rc = 0 and c = c] by blast
  have nb: "new_backoffs n (snd (snd (rateLimitedFetch req 0 c n))) = bs"
    using a by (simp add: new_backoffs_def)
  have p2: "prefix (filter (\<lambda>b. fst b = 500) (new_backoffs n (snd (snd (rateLimitedFetch req 0 c n)))))
      [(500, Num 2000), (500, Num 4000), (500, Num 8000)]"
    using b unfolding nb budget .
  have p3: "\<forall>response. fst (rateLimitedFetch req 0 c n) = Resolved response \<longrightarrow>
        resp_status response \<noteq> 429
      \<and> (resp_status response = 500 \<longrightarrow>
            filter (\<lambda>b. fst b = 500) (new_backoffs n (snd (snd (rateLimitedFetch req 0 c n))))
              = [(500, Num 2000), (500, Num 4000), (500, Num 8000)])"
    using c unfolding nb budget .
  have p4: "\<forall>x1 x2 x3 x4 rest response.
        script n = x1 # x2 # x3 # x4 # rest \<and> answers 500 x1 \<and> answers 500 x2
        \<and> answers 500 x3 \<and> outcome x4 = Inr response \<and> resp_status response = 500 \<longrightarrow>
          fst (rateLimitedFetch req 0 c n) = Resolved response
        \<and> requests_made n (snd (snd (rateLimitedFetch req 0 c n))) = 4
        \<and> new_backoffs n (snd (snd (rateLimitedFetch req 0 c n)))
            = [(500, Num 2000), (500, Num 4000), (500, Num 8000)]"
  proof (intro allI impI, elim conjE)
    fix x1 x2 x3 x4 rest response
    assume h: "script n = x1 # x2 # x3 # x4 # rest" "answers 500 x1" "answers 500 x2"
      "answers 500 x3" "outcome x4 = Inr response" "resp_status response = 500"
    from server_error_cap[OF h, where req = req and c = c]
    show "fst (rateLimitedFetch req 0 c n) = Resolved response
        \<and> requests_made n (snd (snd (rateLimitedFetch req 0 c n))) = 4
        \<and> new_backoffs n (snd (snd (rateLimitedFetch req 0 c n)))
            = [(500, Num 2000), (500, Num 4000), (500, Num 8000)]"
      by (simp add: requests_made_def new_backoffs_def)
  qed
  have p5: "\<forall>x rest response.
        script n = x # rest \<and> outcome x = Inr response
        \<and> resp_status response \<noteq> 429 \<and> resp_status response \<noteq> 500 \<longrightarrow>
          fst (rateLimitedFetch req rc c n) = Resolved response
        \<and> requests_made n (snd (snd (rateLimitedFetch req rc c n))) = 1
        \<and> new_backoffs n (snd (snd (rateLimitedFetch req rc c n))) = []"
  proof (intro allI impI, elim conjE)
    fix x rest response
    assume h: "script n = x # rest" "outcome x = Inr response"
      "resp_status response \<noteq> 429" "resp_status response \<noteq> 500"
    show "fst (rateLimitedFetch req rc c n) = Resolved response
        \<and> requests_made n (snd (snd (rateLimitedFetch req rc c n))) = 1
        \<and> new_backoffs n (snd (snd (rateLimitedFetch req rc c n))) = []"
      unfolding surfaced_immediately[OF h]
      by (simp add: requests_made_def new_backoffs_def after_send_def)
  qed
  have p6: "retried_after (new_send_times n (snd (snd (rateLimitedFetch req rc c n)))) (script n)
      (new_backoffs n (snd (snd (rateLimitedFetch req rc c n))))"
  proof -
    obtain ts es where
      s: "map fst (sent (snd (snd (rateLimitedFetch req rc c n)))) = map fst (sent n) @ ts"
      and e: "backoffs (snd (snd (rateLimitedFetch req rc c n))) = backoffs n @ es"
      and r: "retried_after ts (script n) es"
      using rateLimitedFetch_timing[OF refl, where n = n and req = req and rc = rc and c = c]
      by blast
    have "drop (length (map fst (sent n))) (map fst (sent (snd (snd (rateLimitedFetch req rc c n))))) = ts"
      unfolding s by simp
    then have "new_send_times n (snd (snd (rateLimitedFetch req rc c n))) = ts"
      by (simp add: new_send_times_def drop_map)
    moreover have "new_backoffs n (snd (snd (rateLimitedFetch req rc c n))) = es"
      using e by (simp add: new_backoffs_def)
    ultimately show ?thesis using r by simp
  qed
  have p7: "int k \<le> 9007199254740992 \<longrightarrow> parseInt (string_of_nat k) = Num (int k)"
    using parseInt_string_of_nat by blast
  have p8: "h \<noteq> [] \<longrightarrow>
       timer_delay (throttle_wait (Some h))
         = (case parseInt h of
              NaN \<Rightarrow> 1
            | Num s \<Rightarrow> if 1 \<le> s \<and> s \<le> 2147483 then s * 1000 else 1
            | Beyond positive \<Rightarrow> 1)"
    using timer_delay_throttle_wait by blast
  have p9: "timer_delay (throttle_wait None) = 2 * minRequestInterval"
    and p10: "timer_delay (throttle_wait (Some '''')) = 2 * minRequestInterval"
    using timer_delay_default by simp_all
  have p11: "map (\<lambda>b. timer_delay (snd b)) (server_error_backoffs 0) = [2000, 4000, 8000]"
    unfolding budget by (simp add: timer_delay_def)
  from p1 p2 p3 p4 p5 p6 p7 p8 p9 p10 p11 show ?thesis by (intro conjI)
qed

text \<open>
  Claim C6 says that a 429 is retried after waiting the provider-supplied Retry-After
  duration if present. A provider may give Retry-After as an HTTP date; \<open>parseInt\<close> reads
  no number from it, the wait is \<open>NaN\<close>, and the timer fires after 1 ms: the retry of a
  request sent at 1445412400000 (07:26:40 on the day named) goes out at 1445412403000,
  when the rate limiter lets it, and not at 07:28:00. A duration of 2147484 seconds is past
  what a timer takes and is cut to 1 ms in the same way, where 2147483 seconds and 120
  seconds are waited in full.
\<close>

theorem retry_after_not_waited:
  "parseInt ''Wed, 21 Oct 2015 07:28:00 GMT'' = NaN
 \<and> new_backoffs (net_at 1445412400000 (throttled_by ''Wed, 21 Oct 2015 07:28:00 GMT''))
      (snd (snd (rateLimitedFetch get_req 0 (createReadwiseClient ''tok'')
         (net_at 1445412400000 (throttled_by ''Wed, 21 Oct 2015 07:28:00 GMT'')))))
      = [(429, NaN)]
 \<and> timer_delay NaN = 1
 \<and> new_send_times (net_at 1445412400000 (throttled_by ''Wed, 21 Oct 2015 07:28:00 GMT''))
      (snd (snd (rateLimitedFetch get_req 0 (createReadwiseClient ''tok'')
         (net_at 1445412400000 (throttled_by ''Wed, 21 Oct 2015 07:28:00 GMT'')))))
      = [1445412400000, 1445412403000]
 \<and> new_backoffs (net_at 1445412400000 (throttled_by ''2147484''))
      (snd (snd (rateLimitedFetch get_req 0 (createReadwiseClient ''tok'')
         (net_at 1445412400000 (throttled_by ''2147484'')))))
      = [(429, Num 2147484000)]
 \<and> timer_delay (Num 2147484000) = 1
 \<and> new_send_times (net_at 1445412400000 (throttled_by ''2147484''))
      (snd (snd (rateLimitedFetch get_req 0 (createReadwiseClient ''tok'')
         (net_at 1445412400000 (throttled_by ''2147484'')))))
      = [1445412400000, 1445412403000]
 \<and> new_send_times (net_at 1445412400000 (throttled_by ''2147483''))
      (snd (snd (rateLimitedFetch get_req 0 (createReadwiseClient ''tok'')
         (net_at 1445412400000 (throttled_by ''2147483'')))))
      = [1445412400000, 1447559883050]
 \<and> new_send_times (net_at 1445412400000 (throttled_by ''120''))
      (snd (snd (rateLimitedFetch get_req 0 (createReadwiseClient ''tok'')
         (net_at 1445412400000 (throttled_by ''120'')))))
      = [1445412400000, 1445412520050]"
  by code_simp


section \<open>Properties of the transformer\<close>

text \<open>
  Claim C7. \<open>transformDocument\<close> is a function of the upstream document alone. Both wire
  shapes of the tags give the list of tag names in order (an array of tag objects and the
  record with the same tag objects give the same local document), and missing tags give the
  empty list. Each of the four optional timestamps is \<open>None\<close> when the upstream field is
  absent, and the date read from the string when the field has a value; an absent
  \<open>reading_progress\<close> gives 0 and a present one is kept.
\<close>

theorem transformer_normalization:
  "tags (transformDocument (doc\<lparr>rw_tags := Some (TagArray ts)\<rparr>)) = map tag_name ts
 \<and> tags (transformDocument (doc\<lparr>rw_tags := Some (TagRecord kvs)\<rparr>)) = map tag_name (map snd kvs)
 \<and> transformDocument (doc\<lparr>rw_tags := Some (TagRecord kvs)\<rparr>)
     = transformDocument (doc\<lparr>rw_tags := Some (TagArray (map snd kvs))\<rparr>)
 \<and> tags (transformDocument (doc\<lparr>rw_tags := None\<rparr>)) = []
 \<and> firstOpenedAt (transformDocument (doc\<lparr>rw_first_opened_at := None\<rparr>)) = None
 \<and> lastOpenedAt (transformDocument (doc\<lparr>rw_last_opened_at := None\<rparr>)) = None
 \<and> lastMovedAt (transformDocument (doc\<lparr>rw_last_moved_at := None\<rparr>)) = None
 \<and> publishedDate (transformDocument (doc\<lparr>rw_published_date := None\<rparr>)) = None
 \<and> firstOpenedAt (transformDocument (doc\<lparr>rw_first_opened_at := Some s\<rparr>))
     = (if s = [] then None else Some (DateOf s))
 \<and> lastOpenedAt (transformDocument (doc\<lparr>rw_last_opened_at := Some s\<rparr>))
     = (if s = [] then None else Some (DateOf s))
 \<and> lastMovedAt (transformDocument (doc\<lparr>rw_last_moved_at := Some s\<rparr>))
     = (if s = [] then None else Some (DateOf s))
 \<and> publishedDate (transformDocument (doc\<lparr>rw_published_date := Some s\<rparr>))
     = (if s = [] then None else Some (DateOf s))
 \<and> readingProgress (transformDocument (doc\<lparr>rw_reading_progress := None\<rparr>)) = 0
 \<and> readingProgress (transformDocument (doc\<lparr>rw_reading_progress := Some p\<rparr>)) = p"
  by (simp add: transformDocument_def date_or_null_def truthy_def)


section \<open>Properties of the sync state machine\<close>

lemma sublist_label: "sublist lbl (msg @ '' (at cursor: '' @ lbl @ ''...)'')"
  unfolding sublist_def by (rule exI[of _ "msg @ '' (at cursor: ''"], rule exI[of _ "''...)''"]) simp

lemma fetchDocuments_net:
  "snd (snd (fetchDocuments params c n)) = snd (snd (rateLimitedFetch (list_url params) 0 c n))"
  by (simp add: fetchDocuments_def split: prod.splits promised.splits sum.splits)

lemma syncNextBatch_net:
  assumes "apiToken d = Some tok" "tok \<noteq> []" "syncState d = Some st" "status st = Syncing"
  shows "snd (snd (syncNextBatch rejects d n))
       = snd (snd (fetchDocuments
                    \<lparr>p_updatedAfter = lastSyncAt st, p_location = None, p_category = None,
                     p_pageCursor = lastCursor st, p_withHtmlContent = None\<rparr>
                    (createReadwiseClient tok) n))"
  using assms
  by (simp add: syncNextBatch_def truthy_def Let_def split: prod.splits promised.splits option.splits)

lemmas run_simps =
  fetchDocuments_def rateLimitedFetch.simps createReadwiseClient_def net_at_def page_of_def
  reply_def list_url_def set_param_def minRequestInterval_def ok_def Let_def sleep_def
  timer_delay_def db_with_def state_of_def truthy_def

subsection \<open>Terminal detection\<close>

text \<open>
  Claim C1, as the code has it. In a step that runs (token configured, status syncing) and
  whose fetch and upserts succeed: if the fetched page has no next cursor (\<open>null\<close> or the
  empty string) or no results, the persisted status becomes idle, the step reports
  completed, and \<open>lastSyncAt\<close> becomes the current time, whatever the state held before;
  otherwise the status stays syncing and \<open>lastSyncAt\<close> keeps its value.
\<close>

theorem terminal_detection:
  assumes tok: "apiToken d = Some tok" "tok \<noteq> []"
      and st: "syncState d = Some st" "status st = Syncing"
      and page: "fetchDocuments
                   \<lparr>p_updatedAfter = lastSyncAt st, p_location = None, p_category = None,
                    p_pageCursor = lastCursor st, p_withHtmlContent = None\<rparr>
                   (createReadwiseClient tok) n = (Resolved page, c', n')"
      and stored: "fst (upsert_all rejects (map transformDocument (results page)) (documents d)) = None"
  shows "\<exists>progress d'. syncNextBatch rejects d n = (Resolved progress, d', n') \<and>
           (if truthy (nextPageCursor page) \<and> results page \<noteq> []
            then map_option status (syncState d') = Some Syncing
               \<and> map_option lastSyncAt (syncState d') = Some (lastSyncAt st)
               \<and> p_status progress = Syncing \<and> hasMore progress
            else map_option status (syncState d') = Some Idle
               \<and> map_option lastSyncAt (syncState d') = Some (Some (DateAt (clock n')))
               \<and> p_status progress = Completed \<and> \<not> hasMore progress)"
proof -
  obtain rows where rows: "upsert_all rejects (map transformDocument (results page)) (documents d) = (None, rows)"
    using stored by (cases "upsert_all rejects (map transformDocument (results page)) (documents d)") auto
  show ?thesis
    using tok st page rows
    by (simp add: syncNextBatch_def truthy_def update_syncState_def Let_def)
qed

theorem terminal_detection_witness:
  "(\<exists>progress d'.
      syncNextBatch (\<lambda>_. None) (db_with (state_of Syncing (Some ''C1'') (Some (DateAt 1000)) 50 None) [])
        (net_at 5000 [page_of (Some ''C2'') []])
      = (Resolved progress, d', \<lparr>clock = 5050, script = [],
           sent = [(5000, ''Token tok'', \<lparr>req_method = ''GET'', req_path = ''/v3/list/'',
                    req_query = [(''updatedAfter'', QDate (DateAt 1000)), (''pageCursor'', QStr ''C1'')],
                    req_body = []\<rparr>)],
           backoffs = []\<rparr>)
      \<and> map_option status (syncState d') = Some Idle
      \<and> map_option lastSyncAt (syncState d') = Some (Some (DateAt 5050))
      \<and> p_status progress = Completed \<and> \<not> hasMore progress)"
proof -
  let ?st = "state_of Syncing (Some ''C1'') (Some (DateAt 1000)) 50 None"
  let ?d = "db_with ?st []"
  let ?n = "net_at 5000 [page_of (Some ''C2'') []] :: ReadwiseListResponse net"
  let ?n' = "\<lparr>clock = 5050, script = [],
           sent = [(5000, ''Token tok'', \<lparr>req_method = ''GET'', req_path = ''/v3/list/'',
                    req_query = [(''updatedAfter'', QDate (DateAt 1000)), (''pageCursor'', QStr ''C1'')],
                    req_body = []\<rparr>)],
           backoffs = []\<rparr> :: ReadwiseListResponse net"
  let ?page = "\<lparr>rl_count = 0, nextPageCursor = Some ''C2'', results = []\<rparr>"
  have h1: "apiToken ?d = Some ''tok''" by (simp add: db_with_def)
  have h2: "''tok'' \<noteq> []" by simp
  have h3: "syncState ?d = Some ?st" by (simp add: db_with_def)
  have h4: "status ?st = Syncing" by (simp add: state_of_def)
  have h5: "fetchDocuments
              \<lparr>p_updatedAfter = lastSyncAt ?st, p_location = None, p_category = None,
               p_pageCursor = lastCursor ?st, p_withHtmlContent = None\<rparr>
              (createReadwiseClient ''tok'') ?n
            = (Resolved ?page, \<lparr>token = ''tok'', lastRequestTime = 5000\<rparr>, ?n')"
    by (simp add: run_simps)
  have h6: "fst (upsert_all (\<lambda>_. None) (map transformDocument (results ?page)) (documents ?d)) = None"
    by simp
  from terminal_detection[OF h1 h2 h3 h4 h5 h6] show ?thesis
    by (simp add: truthy_def)
qed

text \<open>
  The claim as stated speaks of a \<open>null\<close> cursor only. A page with one result and the empty
  string as next cursor is neither \<open>null\<close> nor empty of results, yet the step completes.
\<close>

theorem terminal_detection_counterexample:
  "(case syncNextBatch (\<lambda>_. None)
           (db_with (state_of Syncing (Some ''C1'') (Some (DateAt 1000)) 50 None) [])
           (net_at 5000 [page_of (Some '''') [sample_doc ''a'']]) of
      (progress, d', n') \<Rightarrow>
        (progress, map_option status (syncState d'), map_option lastSyncAt (syncState d'),
         map_option lastCursor (syncState d')))
   = (Resolved \<lparr>p_status = Completed, p_totalSynced = 1, currentBatch = 1, hasMore = False,
                 p_error = None\<rparr>,
      Some Idle, Some (Some (DateAt 5050)), Some (Some ''''))"
  by (simp add: syncNextBatch_def update_syncState_def run_simps)

subsection \<open>Failure of a step\<close>

text \<open>
  Claim C2. In a step that starts with status syncing (token configured) and whose fetch
  rejects or whose upsert loop throws, the step returns with the persisted status error,
  the persisted cursor is the one the step started with, and the persisted message is the
  error's message followed by \<open>(at cursor: \<dots>...)\<close>, where the dots stand for the first 20
  characters of that cursor (a prefix of it), or \<open>start\<close> when there is none.
\<close>

theorem error_atomicity:
  assumes tok: "apiToken d = Some tok" "tok \<noteq> []"
      and st: "syncState d = Some st" "status st = Syncing"
      and raised:
        "fetchDocuments
           \<lparr>p_updatedAfter = lastSyncAt st, p_location = None, p_category = None,
            p_pageCursor = lastCursor st, p_withHtmlContent = None\<rparr>
           (createReadwiseClient tok) n = (Rejected e, c', n')
         \<or> (\<exists>page. fetchDocuments
               \<lparr>p_updatedAfter = lastSyncAt st, p_location = None, p_category = None,
                p_pageCursor = lastCursor st, p_withHtmlContent = None\<rparr>
               (createReadwiseClient tok) n = (Resolved page, c', n')
             \<and> fst (upsert_all rejects (map transformDocument (results page)) (documents d)) = Some e)"
  shows "\<exists>progress d' msg. syncNextBatch rejects d n = (Resolved progress, d', n')
           \<and> p_status progress = Error
           \<and> map_option status (syncState d') = Some Error
           \<and> map_option lastCursor (syncState d') = Some (lastCursor st)
           \<and> map_option errorMsg (syncState d') = Some (Some msg)
           \<and> msg = message_of e @ '' (at cursor: '' @ cursor_label (lastCursor st) @ ''...)''
           \<and> (case lastCursor st of
                 None \<Rightarrow> sublist ''start'' msg
               | Some cur \<Rightarrow> prefix (take 20 cur) cur \<and> sublist (take 20 cur) msg)"
proof -
  let ?msg = "message_of e @ '' (at cursor: '' @ cursor_label (lastCursor st) @ ''...)''"
  have lbl: "case lastCursor st of
               None \<Rightarrow> sublist ''start'' ?msg
             | Some cur \<Rightarrow> prefix (take 20 cur) cur \<and> sublist (take 20 cur) ?msg"
  proof (cases "lastCursor st")
    case None
    then show ?thesis using sublist_label[of "''start''" "message_of e"] by (simp add: cursor_label_def)
  next
    case (Some cur)
    show ?thesis
    proof (cases "take 20 cur = []")
      case True
      then show ?thesis using Some by (simp add: take_is_prefix)
    next
      case False
      then show ?thesis using Some sublist_label[of "take 20 cur" "message_of e"]
        by (simp add: cursor_label_def take_is_prefix)
    qed
  qed
  have "\<exists>progress d'. syncNextBatch rejects d n = (Resolved progress, d', n')
           \<and> p_status progress = Error
           \<and> syncState d' = Some (st\<lparr>status := Error, errorMsg := Some ?msg\<rparr>)"
    using raised
  proof
    assume "fetchDocuments
           \<lparr>p_updatedAfter = lastSyncAt st, p_location = None, p_category = None,
            p_pageCursor = lastCursor st, p_withHtmlContent = None\<rparr>
           (createReadwiseClient tok) n = (Rejected e, c', n')"
    then show ?thesis using tok st
      by (simp add: syncNextBatch_def truthy_def sync_catch_def update_syncState_def Let_def)
  next
    assume "\<exists>page. fetchDocuments
               \<lparr>p_updatedAfter = lastSyncAt st, p_location = None, p_category = None,
                p_pageCursor = lastCursor st, p_withHtmlContent = None\<rparr>
               (createReadwiseClient tok) n = (Resolved page, c', n')
             \<and> fst (upsert_all rejects (map transformDocument (results page)) (documents d)) = Some e"
    then obtain page rows where
      "fetchDocuments
               \<lparr>p_updatedAfter = lastSyncAt st, p_location = None, p_category = None,
                p_pageCursor = lastCursor st, p_withHtmlContent = None\<rparr>
               (createReadwiseClient tok) n = (Resolved page, c', n')"
      "upsert_all rejects (map transformDocument (results page)) (documents d) = (Some e, rows)"
      by (metis prod.collapse)
    then show ?thesis using tok st
      by (simp add: syncNextBatch_def truthy_def sync_catch_def update_syncState_def Let_def)
  qed
  then obtain progress d' where run: "syncNextBatch rejects d n = (Resolved progress, d', n')"
    and failed: "p_status progress = Error"
    and row: "syncState d' = Some (st\<lparr>status := Error, errorMsg := Some ?msg\<rparr>)"
    by blast
  show ?thesis
  proof (rule exI[of _ progress], rule exI[of _ d'], rule exI[of _ ?msg], intro conjI)
    show "syncNextBatch rejects d n = (Resolved progress, d', n')" by (rule run)
    show "p_status progress = Error" by (rule failed)
    show "map_option status (syncState d') = Some Error" by (simp add: row)
    show "map_option lastCursor (syncState d') = Some (lastCursor st)" by (simp add: row)
    show "map_option errorMsg (syncState d') = Some (Some ?msg)" by (simp add: row)
    show "?msg = ?msg" by (rule refl)
    show "case lastCursor st of
               None \<Rightarrow> sublist ''start'' ?msg
             | Some cur \<Rightarrow> prefix (take 20 cur) cur \<and> sublist (take 20 cur) ?msg" by (rule lbl)
  qed
qed

theorem error_atomicity_witness:
  "(\<exists>progress d' n'.
      syncNextBatch (\<lambda>_. None)
        (db_with (state_of Syncing (Some ''C7'') None 300 None) [])
        (net_at 5000 (replicate 4 (reply 500 ''Internal Server Error'' None (Inl ''no body''))))
      = (Resolved progress, d', n')
    \<and> p_status progress = Error
    \<and> map_option status (syncState d') = Some Error
    \<and> map_option lastCursor (syncState d') = Some (Some ''C7'')
    \<and> map_option errorMsg (syncState d')
        = Some (Some ''Failed to fetch documents: 500 Internal Server Error (at cursor: C7...)''))
 \<and> (\<exists>progress d' n'.
      syncNextBatch rejects_b
        (db_with (state_of Syncing (Some ''C7'') None 300 None) [])
        (net_at 5000 [page_of (Some ''C8'') [sample_doc ''a'', sample_doc ''b'']])
      = (Resolved progress, d', n')
    \<and> p_status progress = Error
    \<and> map_option status (syncState d') = Some Error
    \<and> map_option lastCursor (syncState d') = Some (Some ''C7'')
    \<and> map_option errorMsg (syncState d')
        = Some (Some ''Unique constraint failed (at cursor: C7...)''))"
proof -
  let ?st = "state_of Syncing (Some ''C7'') None 300 None"
  let ?d = "db_with ?st []"
  let ?n = "net_at 5000 (replicate 4 (reply 500 ''Internal Server Error'' None (Inl ''no body'')))
              :: ReadwiseListResponse net"
  let ?m = "net_at 5000 [page_of (Some ''C8'') [sample_doc ''a'', sample_doc ''b'']]"
  let ?params = "\<lparr>p_updatedAfter = lastSyncAt ?st, p_location = None, p_category = None,
               p_pageCursor = lastCursor ?st, p_withHtmlContent = None\<rparr>"
  let ?F = "fetchDocuments ?params (createReadwiseClient ''tok'') ?n"
  let ?G = "fetchDocuments ?params (createReadwiseClient ''tok'') ?m"
  let ?e = "JsError ''Failed to fetch documents: 500 Internal Server Error''"
  let ?u = "JsError ''Unique constraint failed''"
  let ?page = "\<lparr>rl_count = 2, nextPageCursor = Some ''C8'',
                 results = [sample_doc ''a'', sample_doc ''b'']\<rparr>"
  have h1: "apiToken ?d = Some ''tok''" by (simp add: db_with_def)
  have h2: "''tok'' \<noteq> []" by simp
  have h3: "syncState ?d = Some ?st" by (simp add: db_with_def)
  have h4: "status ?st = Syncing" by (simp add: state_of_def)
  have k: "lastCursor ?st = Some ''C7''" by (simp add: state_of_def)
  have r: "fst ?F = Rejected ?e" by code_simp
  have "?F = (Rejected ?e, fst (snd ?F), snd (snd ?F))"
    using r by (metis prod.collapse)
  then have h5: "?F = (Rejected ?e, fst (snd ?F), snd (snd ?F))
     \<or> (\<exists>page. ?F = (Resolved page, fst (snd ?F), snd (snd ?F))
          \<and> fst (upsert_all (\<lambda>_. None) (map transformDocument (results page)) (documents ?d)) = Some ?e)"
    by (rule disjI1)
  have m: "message_of ?e @ '' (at cursor: '' @ cursor_label (lastCursor ?st) @ ''...)''
           = ''Failed to fetch documents: 500 Internal Server Error (at cursor: C7...)''"
    by code_simp
  from error_atomicity[OF h1 h2 h3 h4 h5] obtain progress d' msg where
    f: "syncNextBatch (\<lambda>_. None) ?d ?n = (Resolved progress, d', snd (snd ?F))"
       "p_status progress = Error"
       "map_option status (syncState d') = Some Error"
    and g: "map_option lastCursor (syncState d') = Some (lastCursor ?st)"
       "map_option errorMsg (syncState d') = Some (Some msg)"
       "msg = message_of ?e @ '' (at cursor: '' @ cursor_label (lastCursor ?st) @ ''...)''"
    by blast
  have g1: "map_option lastCursor (syncState d') = Some (Some ''C7'')"
    using g(1) unfolding k .
  have g2: "map_option errorMsg (syncState d')
        = Some (Some ''Failed to fetch documents: 500 Internal Server Error (at cursor: C7...)'')"
    using g(2) unfolding g(3) m .
  from f g1 g2 have first: "\<exists>progress d' n'.
      syncNextBatch (\<lambda>_. None) ?d ?n = (Resolved progress, d', n')
    \<and> p_status progress = Error
    \<and> map_option status (syncState d') = Some Error
    \<and> map_option lastCursor (syncState d') = Some (Some ''C7'')
    \<and> map_option errorMsg (syncState d')
        = Some (Some ''Failed to fetch documents: 500 Internal Server Error (at cursor: C7...)'')"
    by blast
  have r2: "fst ?G = Resolved ?page" by code_simp
  have G: "?G = (Resolved ?page, fst (snd ?G), snd (snd ?G))"
    using r2 by (metis prod.collapse)
  have u: "fst (upsert_all rejects_b (map transformDocument (results ?page)) (documents ?d)) = Some ?u"
    by code_simp
  from G u have h6: "?G = (Rejected ?u, fst (snd ?G), snd (snd ?G))
     \<or> (\<exists>page. ?G = (Resolved page, fst (snd ?G), snd (snd ?G))
          \<and> fst (upsert_all rejects_b (map transformDocument (results page)) (documents ?d)) = Some ?u)"
    by blast
  have m2: "message_of ?u @ '' (at cursor: '' @ cursor_label (lastCursor ?st) @ ''...)''
           = ''Unique constraint failed (at cursor: C7...)''"
    by code_simp
  from error_atomicity[OF h1 h2 h3 h4 h6] obtain progress2 d2 msg2 where
    f2: "syncNextBatch rejects_b ?d ?m = (Resolved progress2, d2, snd (snd ?G))"
       "p_status progress2 = Error"
       "map_option status (syncState d2) = Some Error"
    and g': "map_option lastCursor (syncState d2) = Some (lastCursor ?st)"
       "map_option errorMsg (syncState d2) = Some (Some msg2)"
       "msg2 = message_of ?u @ '' (at cursor: '' @ cursor_label (lastCursor ?st) @ ''...)''"
    by blast
  have g3: "map_option lastCursor (syncState d2) = Some (Some ''C7'')"
    using g'(1) unfolding k .
  have g4: "map_option errorMsg (syncState d2)
        = Some (Some ''Unique constraint failed (at cursor: C7...)'')"
    using g'(2) unfolding g'(3) m2 .
  from f2 g3 g4 have second: "\<exists>progress d' n'.
      syncNextBatch rejects_b ?d ?m = (Resolved progress, d', n')
    \<and> p_status progress = Error
    \<and> map_option status (syncState d') = Some Error
    \<and> map_option lastCursor (syncState d') = Some (Some ''C7'')
    \<and> map_option errorMsg (syncState d')
        = Some (Some ''Unique constraint failed (at cursor: C7...)'')"
    by blast
  from first second show ?thesis by (rule conjI)
qed

subsection \<open>Recovery and restart\<close>

text \<open>
  Claim C3 says that \<open>clearError\<close> takes an error state to syncing, so that the next step
  resumes at the kept cursor. On the error state with cursor \<open>C7\<close> the code clears the
  message and keeps the cursor, but sets the status to idle; the next \<open>syncNextBatch\<close> then
  fetches nothing and reports idle, and \<open>startSync\<close>, the only way back to syncing, drops
  the cursor.
\<close>

theorem clearError_leaves_idle:
  "clearError (db_with (state_of Error (Some ''C7'') (Some (DateAt 1000)) 300 (Some ''boom'')) [])
     = (Resolved (), db_with (state_of Idle (Some ''C7'') (Some (DateAt 1000)) 300 None) [])
 \<and> syncNextBatch (\<lambda>_. None)
       (db_with (state_of Idle (Some ''C7'') (Some (DateAt 1000)) 300 None) [])
       (net_at 5000 [page_of None [sample_doc ''a'']])
     = (Resolved \<lparr>p_status = Idle, p_totalSynced = 300, currentBatch = 0, hasMore = False,
                  p_error = None\<rparr>,
        db_with (state_of Idle (Some ''C7'') (Some (DateAt 1000)) 300 None) [],
        net_at 5000 [page_of None [sample_doc ''a'']])
 \<and> snd (startSync (db_with (state_of Idle (Some ''C7'') (Some (DateAt 1000)) 300 None) []))
     = db_with (state_of Syncing None (Some (DateAt 1000)) 300 None) []"
  by (simp add: clearError_def syncNextBatch_def startSync_def db_with_def state_of_def truthy_def)

text \<open>
  Claim C10. With a token configured and a persisted status other than syncing (or no row
  yet), \<open>startSync\<close> leaves the status syncing, the cursor empty and the error message
  empty. \<open>clearError\<close> keeps the cursor, and \<open>startSync\<close> after \<open>clearError\<close> still
  empties it.
\<close>

theorem startSync_resets_cursor:
  assumes "truthy (apiToken d)" and "map_option status (syncState d) \<noteq> Some Syncing"
  shows "map_option status (syncState (snd (startSync d))) = Some Syncing
       \<and> map_option lastCursor (syncState (snd (startSync d))) = Some None
       \<and> map_option errorMsg (syncState (snd (startSync d))) = Some None
       \<and> map_option lastCursor (syncState (snd (clearError d))) = map_option lastCursor (syncState d)
       \<and> map_option lastCursor (syncState (snd (startSync (snd (clearError d))))) = Some None"
  using assms
  by (auto simp: startSync_def clearError_def created_row_def split: option.splits)

theorem startSync_resets_cursor_witness:
  "truthy (apiToken (db_with (state_of Error (Some ''C7'') (Some (DateAt 1000)) 300 (Some ''boom'')) []))
 \<and> snd (startSync (db_with (state_of Error (Some ''C7'') (Some (DateAt 1000)) 300 (Some ''boom'')) []))
     = db_with (state_of Syncing None (Some (DateAt 1000)) 300 None) []
 \<and> map_option lastCursor (syncState (snd (startSync
       (db_with (state_of Error (Some ''C7'') (Some (DateAt 1000)) 300 (Some ''boom'')) []))))
     = Some None
 \<and> map_option lastCursor (syncState (snd (clearError
       (db_with (state_of Error (Some ''C7'') (Some (DateAt 1000)) 300 (Some ''boom'')) []))))
     = Some (Some ''C7'')
 \<and> map_option lastCursor (syncState (snd (startSync (snd (clearError
       (db_with (state_of Error (Some ''C7'') (Some (DateAt 1000)) 300 (Some ''boom'')) []))))))
     = Some None"
proof -
  let ?d = "db_with (state_of Error (Some ''C7'') (Some (DateAt 1000)) 300 (Some ''boom'')) []"
  have h1: "truthy (apiToken ?d)" by (simp add: db_with_def truthy_def)
  have h2: "map_option status (syncState ?d) \<noteq> Some Syncing"
    by (simp add: db_with_def state_of_def)
  have e: "snd (startSync ?d) = db_with (state_of Syncing None (Some (DateAt 1000)) 300 None) []"
    by (simp add: startSync_def db_with_def state_of_def truthy_def)
  have k: "map_option lastCursor (syncState ?d) = Some (Some ''C7'')"
    by (simp add: db_with_def state_of_def)
  from startSync_resets_cursor[OF h1 h2] h1 e k show ?thesis by simp
qed

subsection \<open>The incremental lower bound\<close>

text \<open>
  Claim C4, as the code has it. In every step that runs and gets an answer, each request
  of the step is the list request whose \<open>updatedAfter\<close> is the persisted \<open>lastSyncAt\<close>
  whenever that is set, on the first page and on every later page alike, followed by
  \<open>pageCursor\<close> when a non-empty cursor is held.
\<close>

theorem lower_bound_every_page:
  assumes tok: "apiToken d = Some tok" "tok \<noteq> []"
      and st: "syncState d = Some st" "status st = Syncing"
      and answered: "script n \<noteq> []"
  shows "\<exists>k. 0 < k \<and> new_requests n (snd (snd (syncNextBatch rejects d n)))
           = replicate k
               \<lparr>req_method = ''GET'', req_path = ''/v3/list/'',
                req_query =
                  (case lastSyncAt st of None \<Rightarrow> [] | Some t \<Rightarrow> [(''updatedAfter'', QDate t)])
                  @ (case lastCursor st of
                       None \<Rightarrow> []
                     | Some cur \<Rightarrow> if cur = [] then [] else [(''pageCursor'', QStr cur)]),
                req_body = []\<rparr>"
proof -
  let ?params = "\<lparr>p_updatedAfter = lastSyncAt st, p_location = None, p_category = None,
                     p_pageCursor = lastCursor st, p_withHtmlContent = None\<rparr>"
  let ?c = "createReadwiseClient tok"
  let ?n' = "snd (snd (rateLimitedFetch (list_url ?params) 0 ?c n))"
  have net: "snd (snd (syncNextBatch rejects d n)) = ?n'"
    using syncNextBatch_net[OF tok st] fetchDocuments_net by simp
  from rateLimitedFetch_requests[OF refl, where n = n and req = "list_url ?params" and rc = 0 and c = ?c]
  obtain ts where sent: "sent ?n' = sent n @ map (\<lambda>t. (t, ''Token '' @ token ?c, list_url ?params)) ts"
    and ne: "ts \<noteq> []"
    using answered by blast
  have "new_requests n ?n' = replicate (length ts) (list_url ?params)"
    unfolding new_requests_def sent by (simp add: comp_def map_replicate_const)
  moreover have "list_url ?params =
      \<lparr>req_method = ''GET'', req_path = ''/v3/list/'',
                req_query =
                  (case lastSyncAt st of None \<Rightarrow> [] | Some t \<Rightarrow> [(''updatedAfter'', QDate t)])
                  @ (case lastCursor st of
                       None \<Rightarrow> []
                     | Some cur \<Rightarrow> if cur = [] then [] else [(''pageCursor'', QStr cur)]),
                req_body = []\<rparr>"
    by (simp add: list_url_def set_param_def)
  ultimately show ?thesis
    unfolding net using ne by (intro exI[of _ "length ts"]) simp
qed

theorem lower_bound_every_page_witness:
  "(\<exists>k. 0 < k \<and>
      new_requests (net_at 5000 [page_of None [sample_doc ''b'']])
        (snd (snd (syncNextBatch (\<lambda>_. None)
           (db_with (state_of Syncing (Some ''C2'') (Some (DateAt 1000)) 1 None) [])
           (net_at 5000 [page_of None [sample_doc ''b'']]))))
      = replicate k \<lparr>req_method = ''GET'', req_path = ''/v3/list/'',
           req_query = [(''updatedAfter'', QDate (DateAt 1000)), (''pageCursor'', QStr ''C2'')],
           req_body = []\<rparr>)"
proof -
  let ?st = "state_of Syncing (Some ''C2'') (Some (DateAt 1000)) 1 None"
  let ?d = "db_with ?st []"
  let ?n = "net_at 5000 [page_of None [sample_doc ''b'']]"
  have h1: "apiToken ?d = Some ''tok''" by (simp add: db_with_def)
  have h2: "''tok'' \<noteq> []" by simp
  have h3: "syncState ?d = Some ?st" by (simp add: db_with_def)
  have h4: "status ?st = Syncing" by (simp add: state_of_def)
  have h5: "script ?n \<noteq> []" by (simp add: net_at_def)
  from lower_bound_every_page[OF h1 h2 h3 h4 h5, of "\<lambda>_. None"] show ?thesis
    by (simp add: state_of_def)
qed

text \<open>
  The claim as stated has \<open>updatedAfter\<close> on the first page of a cycle only. In a cycle
  started after a completed sync, the second page is fetched with the cursor \<open>C2\<close> and with
  \<open>updatedAfter\<close> as well.
\<close>

theorem lower_bound_counterexample:
  "(case syncNextBatch (\<lambda>_. None) (snd (startSync db_synced_before)) (net_at 5000 two_pages) of
      (p1, d1, n1) \<Rightarrow>
        (case syncNextBatch (\<lambda>_. None) d1 n1 of
           (p2, d2, n2) \<Rightarrow>
             (map_option lastCursor (syncState d1), map_option lastSyncAt (syncState d1),
              map req_query (new_requests (net_at 5000 two_pages) n2))))
   = (Some (Some ''C2''), Some (Some (DateAt 1000)),
      [[(''updatedAfter'', QDate (DateAt 1000))],
       [(''updatedAfter'', QDate (DateAt 1000)), (''pageCursor'', QStr ''C2'')]])"
  by code_simp

subsection \<open>Total reconciliation\<close>

text \<open>
  Claim C9. After every step that succeeds (it reports syncing or completed), the persisted
  \<open>totalSynced\<close> and the reported total are the number of rows in the document table at
  that moment, whatever \<open>totalSynced\<close> was before the step.
\<close>

theorem total_reconciliation:
  assumes "syncNextBatch rejects d n = (Resolved progress, d', n')"
      and "p_status progress = Syncing \<or> p_status progress = Completed"
  shows "map_option totalSynced (syncState d') = Some (length (documents d'))
       \<and> p_totalSynced progress = length (documents d')"
  using assms
  by (auto simp: syncNextBatch_def sync_catch_def update_syncState_def Let_def
           split: if_splits option.splits prod.splits promised.splits)

theorem total_reconciliation_witness:
  "map_option totalSynced (syncState after_partial_failure) = Some 0
 \<and> length (documents after_partial_failure) = 1
 \<and> map_option status (syncState after_partial_failure) = Some Error
 \<and> fst (syncNextBatch (\<lambda>_. None) (snd (startSync after_partial_failure))
          (net_at 9000 [page_of None [sample_doc ''a'', sample_doc ''b'']]))
     = Resolved \<lparr>p_status = Completed, p_totalSynced = 2, currentBatch = 2, hasMore = False,
                 p_error = None\<rparr>
 \<and> map_option totalSynced (syncState (fst (snd (syncNextBatch (\<lambda>_. None)
        (snd (startSync after_partial_failure))
        (net_at 9000 [page_of None [sample_doc ''a'', sample_doc ''b'']]))))) = Some 2
 \<and> length (documents (fst (snd (syncNextBatch (\<lambda>_. None)
        (snd (startSync after_partial_failure))
        (net_at 9000 [page_of None [sample_doc ''a'', sample_doc ''b'']]))))) = 2"
proof -
  let ?S = "syncNextBatch (\<lambda>_. None) (snd (startSync after_partial_failure))
              (net_at 9000 [page_of None [sample_doc ''a'', sample_doc ''b'']])"
  let ?p = "\<lparr>p_status = Completed, p_totalSynced = 2, currentBatch = 2, hasMore = False,
             p_error = None\<rparr>"
  have before: "map_option totalSynced (syncState after_partial_failure) = Some 0
     \<and> length (documents after_partial_failure) = 1
     \<and> map_option status (syncState after_partial_failure) = Some Error"
    by code_simp
  have r: "fst ?S = Resolved ?p" by code_simp
  have h1: "?S = (Resolved ?p, fst (snd ?S), snd (snd ?S))"
    using r by (metis prod.collapse)
  have h2: "p_status ?p = Syncing \<or> p_status ?p = Completed" by simp
  from total_reconciliation[OF h1 h2] before r show ?thesis by auto
qed


section \<open>Properties of the batch archive\<close>

lemma remdups_adj_block:
  "0 < k \<Longrightarrow> remdups_adj (replicate k a @ rs) = remdups_adj (a # rs)"
proof (induction k)
  case 0
  then show ?case by simp
next
  case (Suc k)
  then show ?case by (cases k) simp_all
qed

lemma remdups_adj_Cons_cong:
  "remdups_adj rs = remdups_adj rs' \<Longrightarrow> remdups_adj (a # rs) = remdups_adj (a # rs')"
  by (simp add: remdups_adj_Cons)

lemma archiveDocument_net:
  "snd (snd (archiveDocument ident c n))
     = snd (snd (rateLimitedFetch (update_url ident archive_params) 0 c n))"
  by (simp add: archiveDocument_def updateDocument_def split: prod.splits promised.splits sum.splits)

lemma archiveDocument_Pending:
  "script n = [] \<Longrightarrow> fst (archiveDocument ident c n) = Pending"
  by (simp add: archiveDocument_def updateDocument_def rateLimitedFetch_Nil)

lemma archiveDocument_requests:
  assumes "fst (archiveDocument ident c n) \<noteq> Pending"
  shows "\<exists>k es. 0 < k \<and> sent (snd (snd (archiveDocument ident c n))) = sent n @ es
           \<and> map (\<lambda>e. snd (snd e)) es = replicate k (update_url ident archive_params)"
proof -
  have ne: "script n \<noteq> []" using assms archiveDocument_Pending by blast
  from rateLimitedFetch_requests[OF refl, where n = n and req = "update_url ident archive_params"
        and rc = 0 and c = c]
  obtain ts where
    a: "sent (snd (snd (rateLimitedFetch (update_url ident archive_params) 0 c n)))
          = sent n @ map (\<lambda>t. (t, ''Token '' @ token c, update_url ident archive_params)) ts"
    and b: "ts \<noteq> []"
    using ne by blast
  show ?thesis
    unfolding archiveDocument_net a using b
    by (intro exI[of _ "length ts"]
              exI[of _ "map (\<lambda>t. (t, ''Token '' @ token c, update_url ident archive_params)) ts"])
       (simp add: comp_def map_replicate_const)
qed

lemma batchArchive_loop_resolved:
  "batchArchive_loop ids acc c n = (Resolved res, c', n') \<Longrightarrow>
   \<exists>s f es. batch_success res = batch_success acc @ s
      \<and> batch_failed res = batch_failed acc @ f
      \<and> subseq s ids \<and> subseq (map fst f) ids
      \<and> mset s + mset (map fst f) = mset ids
      \<and> sent n' = sent n @ es
      \<and> remdups_adj (map (\<lambda>e. snd (snd e)) es)
          = remdups_adj (map (\<lambda>i. update_url i archive_params) ids)"
proof (induction ids arbitrary: acc c n)
  case Nil
  then show ?case by simp
next
  case (Cons ident ids)
  obtain r c1 n1 where call: "archiveDocument ident c n = (r, c1, n1)"
    by (cases "archiveDocument ident c n") auto
  have np: "r \<noteq> Pending" using Cons.prems call by auto
  from archiveDocument_requests[of ident c n] call np obtain k es1 where
    k: "0 < k" and s1: "sent n1 = sent n @ es1"
    and r1: "map (\<lambda>e. snd (snd e)) es1 = replicate k (update_url ident archive_params)"
    by auto
  show ?case
  proof (cases r)
    case Pending
    then show ?thesis using np by simp
  next
    case (Resolved ack)
    let ?acc = "acc\<lparr>batch_success := batch_success acc @ [ident]\<rparr>"
    have "batchArchive_loop ids ?acc c1 n1 = (Resolved res, c', n')"
      using Cons.prems call Resolved by simp
    from Cons.IH[OF this] obtain s f es where
      ih: "batch_success res = batch_success ?acc @ s" "batch_failed res = batch_failed ?acc @ f"
          "subseq s ids" "subseq (map fst f) ids" "mset s + mset (map fst f) = mset ids"
          "sent n' = sent n1 @ es"
          "remdups_adj (map (\<lambda>e. snd (snd e)) es)
             = remdups_adj (map (\<lambda>i. update_url i archive_params) ids)"
      by blast
    have "remdups_adj (map (\<lambda>e. snd (snd e)) (es1 @ es))
            = remdups_adj (replicate k (update_url ident archive_params) @ map (\<lambda>e. snd (snd e)) es)"
      by (simp add: r1)
    also have "\<dots> = remdups_adj (update_url ident archive_params # map (\<lambda>e. snd (snd e)) es)"
      by (rule remdups_adj_block[OF k])
    also have "\<dots> = remdups_adj (update_url ident archive_params
                                     # map (\<lambda>i. update_url i archive_params) ids)"
      by (rule remdups_adj_Cons_cong[OF ih(7)])
    finally have rq: "remdups_adj (map (\<lambda>e. snd (snd e)) (es1 @ es))
                = remdups_adj (map (\<lambda>i. update_url i archive_params) (ident # ids))"
      by simp
    have sub: "subseq (map fst f) (ident # ids)"
      using ih(4) by (rule list_emb_Cons)
    show ?thesis
      using ih(1-3,5) sub s1 ih(6) rq
      by (intro exI[of _ "ident # s"] exI[of _ f] exI[of _ "es1 @ es"]) simp
  next
    case (Rejected e)
    let ?acc = "acc\<lparr>batch_failed := batch_failed acc @ [(ident, message_of e)]\<rparr>"
    have "batchArchive_loop ids ?acc c1 n1 = (Resolved res, c', n')"
      using Cons.prems call Rejected by simp
    from Cons.IH[OF this] obtain s f es where
      ih: "batch_success res = batch_success ?acc @ s" "batch_failed res = batch_failed ?acc @ f"
          "subseq s ids" "subseq (map fst f) ids" "mset s + mset (map fst f) = mset ids"
          "sent n' = sent n1 @ es"
          "remdups_adj (map (\<lambda>e. snd (snd e)) es)
             = remdups_adj (map (\<lambda>i. update_url i archive_params) ids)"
      by blast
    have "remdups_adj (map (\<lambda>e. snd (snd e)) (es1 @ es))
            = remdups_adj (replicate k (update_url ident archive_params) @ map (\<lambda>e. snd (snd e)) es)"
      by (simp add: r1)
    also have "\<dots> = remdups_adj (update_url ident archive_params # map (\<lambda>e. snd (snd e)) es)"
      by (rule remdups_adj_block[OF k])
    also have "\<dots> = remdups_adj (update_url ident archive_params
                                     # map (\<lambda>i. update_url i archive_params) ids)"
      by (rule remdups_adj_Cons_cong[OF ih(7)])
    finally have rq: "remdups_adj (map (\<lambda>e. snd (snd e)) (es1 @ es))
                = remdups_adj (map (\<lambda>i. update_url i archive_params) (ident # ids))"
      by simp
    have sub: "subseq s (ident # ids)"
      using ih(3) by (rule list_emb_Cons)
    show ?thesis
      using ih(1,2,4,5) sub s1 ih(6) rq
      by (intro exI[of _ s] exI[of _ "(ident, message_of e) # f"] exI[of _ "es1 @ es"]) simp
  qed
qed

lemma rateLimitedFetch_final:
  assumes "script n = x # rest" "final x"
  shows "fst (rateLimitedFetch req rc c n) \<noteq> Pending
       \<and> snd (snd (rateLimitedFetch req rc c n)) = after_send req c n x rest"
  using assms
  by (auto simp: rateLimitedFetch_Cons final_def answers_def split: sum.splits)

lemma archiveDocument_final:
  assumes "script n = x # rest" "final x"
  shows "fst (archiveDocument ident c n) \<noteq> Pending
       \<and> snd (snd (archiveDocument ident c n))
           = after_send (update_url ident archive_params) c n x rest"
proof -
  from rateLimitedFetch_final[OF assms, of "update_url ident archive_params" 0 c]
  have a: "fst (rateLimitedFetch (update_url ident archive_params) 0 c n) \<noteq> Pending"
    and b: "snd (snd (rateLimitedFetch (update_url ident archive_params) 0 c n))
              = after_send (update_url ident archive_params) c n x rest"
    by simp_all
  have "fst (archiveDocument ident c n) \<noteq> Pending"
    using a
    by (auto simp: archiveDocument_def updateDocument_def
             split: prod.splits promised.splits sum.splits)
  then show ?thesis unfolding archiveDocument_net b by simp
qed

lemma batchArchive_loop_returns:
  "list_all final (script n) \<Longrightarrow> length ids \<le> length (script n) \<Longrightarrow>
   \<exists>res. fst (batchArchive_loop ids acc c n) = Resolved res
      \<and> new_requests n (snd (snd (batchArchive_loop ids acc c n)))
          = map (\<lambda>i. update_url i archive_params) ids"
proof (induction ids arbitrary: acc c n)
  case Nil
  then show ?case by (simp add: new_requests_def)
next
  case (Cons ident ids)
  from Cons.prems(2) obtain x rest where sc: "script n = x # rest"
    by (cases "script n") auto
  have fx: "final x" and frest: "list_all final rest"
    using Cons.prems(1) sc by simp_all
  obtain r c1 n1 where call: "archiveDocument ident c n = (r, c1, n1)"
    by (cases "archiveDocument ident c n") auto
  from archiveDocument_final[OF sc fx, of ident c] call
  have np: "r \<noteq> Pending" and n1: "n1 = after_send (update_url ident archive_params) c n x rest"
    by simp_all
  have sc1: "script n1 = rest" and s1: "sent n1 = sent n @ [(send_time c n x, ''Token '' @ token c, update_url ident archive_params)]"
    using n1 by (simp_all add: after_send_def)
  have f1: "list_all final (script n1)" using frest sc1 by simp
  have l1: "length ids \<le> length (script n1)" using Cons.prems(2) sc sc1 by simp
  have ext: "new_requests n n' = update_url ident archive_params # new_requests n1 n'"
    if "sent n' = sent n1 @ es" for n' :: "'a net" and es
    using that s1 by (simp add: new_requests_def)
  have grows: "\<exists>es. sent (snd (snd (batchArchive_loop ids acc' c1 n1))) = sent n1 @ es" for acc'
  proof (cases "batchArchive_loop ids acc' c1 n1")
    case (fields r' c' n')
    from Cons.IH[OF f1 l1, of acc' c1] obtain res where "r' = Resolved res"
      using fields by auto
    with fields batchArchive_loop_resolved[of ids acc' c1 n1 res c' n'] show ?thesis
      by auto
  qed
  show ?case
  proof (cases r)
    case Pending
    then show ?thesis using np by simp
  next
    case (Resolved ack)
    let ?acc = "acc\<lparr>batch_success := batch_success acc @ [ident]\<rparr>"
    have step: "batchArchive_loop (ident # ids) acc c n = batchArchive_loop ids ?acc c1 n1"
      using call Resolved by simp
    from grows[of ?acc] obtain es where
      "sent (snd (snd (batchArchive_loop ids ?acc c1 n1))) = sent n1 @ es" by blast
    from ext[OF this] Cons.IH[OF f1 l1, of ?acc c1] show ?thesis
      unfolding step by auto
  next
    case (Rejected e)
    let ?acc = "acc\<lparr>batch_failed := batch_failed acc @ [(ident, message_of e)]\<rparr>"
    have step: "batchArchive_loop (ident # ids) acc c n = batchArchive_loop ids ?acc c1 n1"
      using call Rejected by simp
    from grows[of ?acc] obtain es where
      "sent (snd (snd (batchArchive_loop ids ?acc c1 n1))) = sent n1 @ es" by blast
    from ext[OF this] Cons.IH[OF f1 l1, of ?acc c1] show ?thesis
      unfolding step by auto
  qed
qed

lemma settle_final: "final x \<Longrightarrow> settle rc (x # xs) = Some (x, xs)"
  by (simp add: final_def)

lemma verdicts_final:
  "list_all final xs \<Longrightarrow> length ids \<le> length xs \<Longrightarrow> verdicts ids xs = Some (zip ids xs)"
proof (induction ids arbitrary: xs)
  case Nil
  then show ?case by simp
next
  case (Cons ident ids)
  then obtain x rest where xs: "xs = x # rest" by (cases xs) auto
  with Cons.prems have f: "final x" and r: "list_all final rest" "length ids \<le> length rest"
    by simp_all
  have s: "settle 0 (x # rest) = Some (x, rest)" using f by (rule settle_final)
  from Cons.IH[OF r] s show ?case unfolding xs by (simp del: settle.simps)
qed

lemma verdicts_ids: "verdicts ids xs = Some vs \<Longrightarrow> map fst vs = ids"
proof (induction ids arbitrary: xs vs)
  case Nil
  then show ?case by simp
next
  case (Cons ident ids)
  then show ?case by (auto split: option.splits prod.splits)
qed

lemma rateLimitedFetch_settle:
  "script n = xs \<Longrightarrow>
   (settle rc xs = None \<longrightarrow> fst (rateLimitedFetch req rc c n) = Pending)
   \<and> (\<forall>x rest. settle rc xs = Some (x, rest) \<longrightarrow>
         fst (rateLimitedFetch req rc c n)
           = (case outcome x of Inl msg \<Rightarrow> Rejected (JsError msg) | Inr response \<Rightarrow> Resolved response)
       \<and> script (snd (snd (rateLimitedFetch req rc c n))) = rest)"
proof (induction xs arbitrary: rc c n)
  case Nil
  then show ?case by (simp add: rateLimitedFetch_Nil)
next
  case (Cons x rest)
  let ?c1 = "c\<lparr>lastRequestTime := send_time c n x\<rparr>"
  let ?n2 = "after_send req c n x rest"
  have sc: "script (after_backoff code w x ?n2) = rest" for code w
    by (simp add: after_backoff_def after_send_def)
  show ?case
  proof (cases "outcome x")
    case (Inl msg)
    then show ?thesis using Cons.prems
      by (simp add: rateLimitedFetch_Cons answers_def after_send_def)
  next
    case (Inr response)
    consider (throttle) "resp_status response = 429"
      | (retry) "resp_status response \<noteq> 429" "resp_status response = 500 \<and> rc < 3"
      | (final) "resp_status response \<noteq> 429" "\<not> (resp_status response = 500 \<and> rc < 3)"
      by blast
    then show ?thesis
    proof cases
      case throttle
      have u: "rateLimitedFetch req rc c n
                 = rateLimitedFetch req rc ?c1 (after_backoff 429 (throttle_wait (retryAfter response)) x ?n2)"
        using Cons.prems Inr throttle by (simp add: rateLimitedFetch_Cons)
      have s: "settle rc (x # rest) = settle rc rest"
        using Inr throttle by (simp add: answers_def)
      show ?thesis unfolding u s by (rule Cons.IH[OF sc])
    next
      case retry
      have u: "rateLimitedFetch req rc c n
                 = rateLimitedFetch req (Suc rc) ?c1 (after_backoff 500 (Num (2 ^ rc * 2000)) x ?n2)"
        using Cons.prems Inr retry by (simp add: rateLimitedFetch_Cons)
      have s: "settle rc (x # rest) = settle (Suc rc) rest"
        using Inr retry by (simp add: answers_def)
      show ?thesis unfolding u s by (rule Cons.IH[OF sc])
    next
      case final
      have u: "rateLimitedFetch req rc c n = (Resolved response, ?c1, ?n2)"
        using Cons.prems Inr final by (auto simp: rateLimitedFetch_Cons)
      have s: "settle rc (x # rest) = Some (x, rest)"
        using Inr final by (auto simp: answers_def)
      show ?thesis unfolding u s using Inr by (simp add: after_send_def)
    qed
  qed
qed

lemma archiveDocument_settle:
  "(settle 0 (script n) = None \<longrightarrow> fst (archiveDocument ident c n) = Pending)
   \<and> (\<forall>x rest. settle 0 (script n) = Some (x, rest) \<longrightarrow>
         (accepts x \<longrightarrow> (\<exists>ack. fst (archiveDocument ident c n) = Resolved ack))
       \<and> (\<not> accepts x \<longrightarrow> fst (archiveDocument ident c n) = Rejected (JsError (refusal x)))
       \<and> script (snd (snd (archiveDocument ident c n))) = rest)"
proof (intro conjI allI impI)
  assume "settle 0 (script n) = None"
  with rateLimitedFetch_settle[OF refl, where n = n and rc = 0 and c = c
         and req = "update_url ident archive_params"]
  have "fst (rateLimitedFetch (update_url ident archive_params) 0 c n) = Pending" by blast
  then show "fst (archiveDocument ident c n) = Pending"
    by (auto simp: archiveDocument_def updateDocument_def split: prod.splits)
next
  fix x rest
  assume s: "settle 0 (script n) = Some (x, rest)"
  with rateLimitedFetch_settle[OF refl, where n = n and rc = 0 and c = c
         and req = "update_url ident archive_params"]
  have r: "fst (rateLimitedFetch (update_url ident archive_params) 0 c n)
             = (case outcome x of Inl msg \<Rightarrow> Rejected (JsError msg) | Inr response \<Rightarrow> Resolved response)"
    and sc: "script (snd (snd (rateLimitedFetch (update_url ident archive_params) 0 c n))) = rest"
    by blast+
  show "script (snd (snd (archiveDocument ident c n))) = rest"
    unfolding archiveDocument_net by (rule sc)
  {
    assume "accepts x"
    then show "\<exists>ack. fst (archiveDocument ident c n) = Resolved ack"
      using r
      by (auto simp: archiveDocument_def updateDocument_def accepts_def
               split: prod.splits sum.splits promised.splits)
  }
  {
    assume "\<not> accepts x"
    then show "fst (archiveDocument ident c n) = Rejected (JsError (refusal x))"
      using r
      by (auto simp: archiveDocument_def updateDocument_def accepts_def refusal_def
               split: prod.splits sum.splits promised.splits)
  }
qed

lemma batchArchive_loop_verdicts:
  "(verdicts ids (script n) = None \<longrightarrow> fst (batchArchive_loop ids acc c n) = Pending)
   \<and> (\<forall>vs. verdicts ids (script n) = Some vs \<longrightarrow>
         fst (batchArchive_loop ids acc c n)
           = Resolved \<lparr>batch_success = batch_success acc @ map fst (filter (\<lambda>v. accepts (snd v)) vs),
                       batch_failed = batch_failed acc
                          @ map (\<lambda>v. (fst v, refusal (snd v))) (filter (\<lambda>v. \<not> accepts (snd v)) vs)\<rparr>)"
proof (induction ids arbitrary: acc c n)
  case Nil
  then show ?case by simp
next
  case (Cons ident ids)
  obtain r c1 n1 where call: "archiveDocument ident c n = (r, c1, n1)"
    by (cases "archiveDocument ident c n") auto
  note one = archiveDocument_settle[of n ident c, unfolded call, simplified]
  show ?case
  proof (cases "settle 0 (script n)")
    case None
    with one have "r = Pending" by simp
    with call None show ?thesis by simp
  next
    case (Some p)
    obtain x rest where p: "p = (x, rest)" by (cases p) auto
    from one Some p have
      acc_case: "accepts x \<longrightarrow> (\<exists>ack. r = Resolved ack)"
      and rej_case: "\<not> accepts x \<longrightarrow> r = Rejected (JsError (refusal x))"
      and sc: "script n1 = rest"
      by simp_all
    show ?thesis
    proof (cases "accepts x")
      case True
      with acc_case obtain ack where r: "r = Resolved ack" by blast
      let ?acc = "acc\<lparr>batch_success := batch_success acc @ [ident]\<rparr>"
      have step: "batchArchive_loop (ident # ids) acc c n = batchArchive_loop ids ?acc c1 n1"
        using call r by simp
      from Cons.IH[of n1 ?acc c1] show ?thesis
        unfolding step using Some p sc True
        by (auto split: option.splits)
    next
      case False
      with rej_case have r: "r = Rejected (JsError (refusal x))" by blast
      let ?acc = "acc\<lparr>batch_failed := batch_failed acc @ [(ident, refusal x)]\<rparr>"
      have step: "batchArchive_loop (ident # ids) acc c n = batchArchive_loop ids ?acc c1 n1"
        using call r by (simp add: message_of_def)
      from Cons.IH[of n1 ?acc c1] show ?thesis
        unfolding step using Some p sc False
        by (auto split: option.splits)
    qed
  qed
qed

lemma archiveDocuments_net:
  "truthy (apiToken d) \<Longrightarrow>
     snd (snd (archiveDocuments ids d n))
       = snd (snd (batchArchive ids (createReadwiseClient (the (apiToken d))) n))"
  by (simp add: archiveDocuments_def Let_def split: prod.splits promised.splits)

lemma archiveDocuments_Pending:
  "truthy (apiToken d) \<Longrightarrow>
   fst (batchArchive ids (createReadwiseClient (the (apiToken d))) n) = Pending \<Longrightarrow>
     fst (archiveDocuments ids d n) = Pending \<and> fst (snd (archiveDocuments ids d n)) = d"
  by (auto simp: archiveDocuments_def Let_def split: prod.splits promised.splits)

lemma archiveDocuments_Resolved:
  assumes "truthy (apiToken d)"
      and "fst (batchArchive ids (createReadwiseClient (the (apiToken d))) n) = Resolved res"
  shows "fst (archiveDocuments ids d n)
           = Resolved \<lparr>success = length (batch_success res), failed = length (batch_failed res),
                       errors = map (\<lambda>(ident, err). ident @ '': '' @ err) (batch_failed res)\<rparr>"
    and "fst (snd (archiveDocuments ids d n))
           = d\<lparr>documents :=
                 map (\<lambda>row. if readwiseId row \<in> set (batch_success res)
                            then row\<lparr>location := ''archive'',
                                     lastMovedAt := Some (DateAt (clock (snd (snd (archiveDocuments ids d n)))))\<rparr>
                            else row)
                     (documents d)\<rparr>"
proof -
  obtain c' n' where run: "batchArchive ids (createReadwiseClient (the (apiToken d))) n = (Resolved res, c', n')"
    using assms(2) by (metis prod.collapse)
  show "fst (archiveDocuments ids d n)
           = Resolved \<lparr>success = length (batch_success res), failed = length (batch_failed res),
                       errors = map (\<lambda>(ident, err). ident @ '': '' @ err) (batch_failed res)\<rparr>"
    using assms(1) run by (simp add: archiveDocuments_def Let_def)
  have net: "snd (snd (archiveDocuments ids d n)) = n'"
    using archiveDocuments_net[OF assms(1), of ids n] run by simp
  show "fst (snd (archiveDocuments ids d n))
           = d\<lparr>documents :=
                 map (\<lambda>row. if readwiseId row \<in> set (batch_success res)
                            then row\<lparr>location := ''archive'',
                                     lastMovedAt := Some (DateAt (clock (snd (snd (archiveDocuments ids d n)))))\<rparr>
                            else row)
                     (documents d)\<rparr>"
    unfolding net using assms(1) run by (simp add: archiveDocuments_def Let_def)
qed

text \<open>
  Claim C8, as the code has it. Without a token no request is made and the result is
  \<open>{success: 0, failed: N, errors: ["No API token configured"]}\<close> for a list of \<open>N\<close>
  identifiers, nothing else changed. With a token the upstream's answers decide the outcome:
  the calls are made one after the other, each taking the answers the one before left, and
  the answer that ends the call for an identifier (\<open>verdicts\<close>) is its verdict. Every
  identifier gets a verdict, in the order given, whatever the verdicts before it; \<open>success\<close>
  counts the verdicts that accept and \<open>failed\<close> those that do not, with one \<open>id: reason\<close>
  line for each of these, the reason being what the upstream answered; the rows whose
  identifier has an accepting verdict get \<open>location = archive\<close> and \<open>lastMovedAt = now\<close>
  and every other row is unchanged; and the requests sent are the archive updates of the
  identifiers in order, a retried request repeated in place. When no answer is a 429 or a
  500 there is exactly one request per identifier. The batch is pending only when the
  answers end before the last verdict.
\<close>

theorem best_effort_batch_archive:
  "(\<not> truthy (apiToken d) \<longrightarrow>
      archiveDocuments ids d n
        = (Resolved \<lparr>success = 0, failed = length ids, errors = [''No API token configured'']\<rparr>,
           d, n))
 \<and> (truthy (apiToken d) \<longrightarrow>
      (verdicts ids (script n) = None \<longrightarrow>
          fst (archiveDocuments ids d n) = Pending \<and> fst (snd (archiveDocuments ids d n)) = d)
    \<and> (\<forall>vs. verdicts ids (script n) = Some vs \<longrightarrow>
          map fst vs = ids
        \<and> fst (archiveDocuments ids d n)
            = Resolved \<lparr>success = length (filter (\<lambda>v. accepts (snd v)) vs),
                        failed = length (filter (\<lambda>v. \<not> accepts (snd v)) vs),
                        errors = map (\<lambda>v. fst v @ '': '' @ refusal (snd v))
                                     (filter (\<lambda>v. \<not> accepts (snd v)) vs)\<rparr>
        \<and> fst (snd (archiveDocuments ids d n))
            = d\<lparr>documents :=
                  map (\<lambda>row. if readwiseId row \<in> fst ` set (filter (\<lambda>v. accepts (snd v)) vs)
                             then row\<lparr>location := ''archive'',
                                      lastMovedAt :=
                                        Some (DateAt (clock (snd (snd (archiveDocuments ids d n)))))\<rparr>
                             else row)
                      (documents d)\<rparr>
        \<and> remdups_adj (new_requests n (snd (snd (archiveDocuments ids d n))))
            = remdups_adj (map (\<lambda>i. update_url i archive_params) ids))
    \<and> (list_all final (script n) \<and> length ids \<le> length (script n) \<longrightarrow>
          verdicts ids (script n) = Some (zip ids (script n))
        \<and> new_requests n (snd (snd (archiveDocuments ids d n)))
            = map (\<lambda>i. update_url i archive_params) ids))"
proof (intro conjI impI allI)
  assume "\<not> truthy (apiToken d)"
  then show "archiveDocuments ids d n
        = (Resolved \<lparr>success = 0, failed = length ids, errors = [''No API token configured'']\<rparr>,
           d, n)"
    by (simp add: archiveDocuments_def)
next
  assume tok: "truthy (apiToken d)" and none: "verdicts ids (script n) = None"
  let ?c = "createReadwiseClient (the (apiToken d))"
  from batchArchive_loop_verdicts[of ids n "\<lparr>batch_success = [], batch_failed = []\<rparr>" ?c] none
  have "fst (batchArchive ids ?c n) = Pending" by (simp add: batchArchive_def)
  from archiveDocuments_Pending[OF tok this]
  show "fst (archiveDocuments ids d n) = Pending" and "fst (snd (archiveDocuments ids d n)) = d"
    by simp_all
next
  fix vs
  assume tok: "truthy (apiToken d)" and some: "verdicts ids (script n) = Some vs"
  let ?c = "createReadwiseClient (the (apiToken d))"
  let ?res = "\<lparr>batch_success = map fst (filter (\<lambda>v. accepts (snd v)) vs),
               batch_failed = map (\<lambda>v. (fst v, refusal (snd v))) (filter (\<lambda>v. \<not> accepts (snd v)) vs)\<rparr>"
  from batchArchive_loop_verdicts[of ids n "\<lparr>batch_success = [], batch_failed = []\<rparr>" ?c] some
  have r: "fst (batchArchive ids ?c n) = Resolved ?res" by (simp add: batchArchive_def)
  show "map fst vs = ids" using some by (rule verdicts_ids)
  show "fst (archiveDocuments ids d n)
            = Resolved \<lparr>success = length (filter (\<lambda>v. accepts (snd v)) vs),
                        failed = length (filter (\<lambda>v. \<not> accepts (snd v)) vs),
                        errors = map (\<lambda>v. fst v @ '': '' @ refusal (snd v))
                                     (filter (\<lambda>v. \<not> accepts (snd v)) vs)\<rparr>"
    unfolding archiveDocuments_Resolved(1)[OF tok r] by (simp add: comp_def)
  show "fst (snd (archiveDocuments ids d n))
            = d\<lparr>documents :=
                  map (\<lambda>row. if readwiseId row \<in> fst ` set (filter (\<lambda>v. accepts (snd v)) vs)
                             then row\<lparr>location := ''archive'',
                                      lastMovedAt :=
                                        Some (DateAt (clock (snd (snd (archiveDocuments ids d n)))))\<rparr>
                             else row)
                      (documents d)\<rparr>"
    using archiveDocuments_Resolved(2)[OF tok r] by simp
  define res where "res = ?res"
  define out where "out = batchArchive_loop ids \<lparr>batch_success = [], batch_failed = []\<rparr> ?c n"
  have "fst out = Resolved res" using r by (simp only: out_def res_def batchArchive_def)
  then obtain c' n' where run: "out = (Resolved res, c', n')" by (cases out) auto
  have net: "snd (snd (archiveDocuments ids d n)) = n'"
    using archiveDocuments_net[OF tok, of ids n] run by (simp only: batchArchive_def out_def snd_conv)
  from batchArchive_loop_resolved[OF run[unfolded out_def]] obtain es where
    a: "sent n' = sent n @ es"
    and b: "remdups_adj (map (\<lambda>e. snd (snd e)) es)
              = remdups_adj (map (\<lambda>i. update_url i archive_params) ids)"
    by auto
  have rq: "new_requests n n' = map (\<lambda>e. snd (snd e)) es"
    by (simp add: new_requests_def a)
  show "remdups_adj (new_requests n (snd (snd (archiveDocuments ids d n))))
            = remdups_adj (map (\<lambda>i. update_url i archive_params) ids)"
    unfolding net rq by (rule b)
next
  assume tok: "truthy (apiToken d)"
    and fin: "list_all final (script n) \<and> length ids \<le> length (script n)"
  then have f: "list_all final (script n)" and l: "length ids \<le> length (script n)" by simp_all
  show "verdicts ids (script n) = Some (zip ids (script n))"
    using f l by (rule verdicts_final)
  from batchArchive_loop_returns[OF f l, of "\<lparr>batch_success = [], batch_failed = []\<rparr>"
         "createReadwiseClient (the (apiToken d))"]
  show "new_requests n (snd (snd (archiveDocuments ids d n)))
            = map (\<lambda>i. update_url i archive_params) ids"
    unfolding archiveDocuments_net[OF tok] by (auto simp: batchArchive_def)
qed

theorem best_effort_batch_archive_witness:
  "truthy (apiToken (library [''a'', ''b'', ''c'']))
 \<and> verdicts [''a'', ''b'', ''c''] (script (net_at 10000 [accepted ''a'', refused, accepted ''c'']))
     = Some [(''a'', accepted ''a''), (''b'', refused), (''c'', accepted ''c'')]
 \<and> fst (archiveDocuments [''a'', ''b'', ''c''] (library [''a'', ''b'', ''c''])
          (net_at 10000 [accepted ''a'', refused, accepted ''c'']))
     = Resolved \<lparr>success = 2, failed = 1,
                 errors = [''b: Failed to update document: 403 Forbidden'']\<rparr>
 \<and> placement (fst (snd (archiveDocuments [''a'', ''b'', ''c''] (library [''a'', ''b'', ''c''])
          (net_at 10000 [accepted ''a'', refused, accepted ''c'']))))
     = [(''a'', ''archive'', Some (DateAt 16050)), (''b'', ''new'', None),
        (''c'', ''archive'', Some (DateAt 16050))]
 \<and> list_all final (script (net_at 10000 [accepted ''a'', refused, accepted ''c'']))
 \<and> new_requests (net_at 10000 [accepted ''a'', refused, accepted ''c''])
       (snd (snd (archiveDocuments [''a'', ''b'', ''c''] (library [''a'', ''b'', ''c''])
          (net_at 10000 [accepted ''a'', refused, accepted ''c'']))))
     = map (\<lambda>i. update_url i archive_params) [''a'', ''b'', ''c'']
 \<and> \<not> truthy (apiToken ((library [''a'', ''b'', ''c''])\<lparr>apiToken := None\<rparr>))
 \<and> archiveDocuments [''a'', ''b'', ''c''] ((library [''a'', ''b'', ''c''])\<lparr>apiToken := None\<rparr>)
          (net_at 10000 [accepted ''a'', refused, accepted ''c''])
     = (Resolved \<lparr>success = 0, failed = 3, errors = [''No API token configured'']\<rparr>,
        (library [''a'', ''b'', ''c''])\<lparr>apiToken := None\<rparr>,
        net_at 10000 [accepted ''a'', refused, accepted ''c''])
 \<and> verdicts [''a'', ''b''] (script (net_at 10000 [accepted ''a''])) = None
 \<and> fst (archiveDocuments [''a'', ''b''] (library [''a'', ''b'']) (net_at 10000 [accepted ''a'']))
     = Pending"
proof -
  let ?ids = "[''a'', ''b'', ''c'']"
  let ?d = "library ?ids"
  let ?bare = "?d\<lparr>apiToken := None\<rparr>"
  let ?n = "net_at 10000 [accepted ''a'', refused, accepted ''c'']"
  let ?vs = "[(''a'', accepted ''a''), (''b'', refused), (''c'', accepted ''c'')]"
  let ?m = "net_at 10000 [accepted ''a'']"
  have tok: "truthy (apiToken ?d)" by code_simp
  have tok2: "truthy (apiToken (library [''a'', ''b'']))" by code_simp
  have notok: "\<not> truthy (apiToken ?bare)" by code_simp
  have v: "verdicts ?ids (script ?n) = Some ?vs" by code_simp
  have w: "verdicts [''a'', ''b''] (script ?m) = None" by code_simp
  have fin: "list_all final (script ?n)" by code_simp
  have len: "length ?ids \<le> length (script ?n)" by (simp add: net_at_def)
  have yes: "filter (\<lambda>v. accepts (snd v)) ?vs = [(''a'', accepted ''a''), (''c'', accepted ''c'')]"
    by (simp add: accepts_def accepted_def refused_def reply_def ok_def)
  have no: "filter (\<lambda>v. \<not> accepts (snd v)) ?vs = [(''b'', refused)]"
    by (simp add: accepts_def accepted_def refused_def reply_def ok_def)
  have why: "refusal refused = ''Failed to update document: 403 Forbidden''" by code_simp
  have t: "clock (snd (snd (archiveDocuments ?ids ?d ?n))) = 16050" by code_simp
  have rows: "placement (?d\<lparr>documents :=
                map (\<lambda>row. if readwiseId row \<in> set [''a'', ''c'']
                           then row\<lparr>location := ''archive'',
                                    lastMovedAt := Some (DateAt 16050)\<rparr>
                           else row)
                    (documents ?d)\<rparr>)
      = [(''a'', ''archive'', Some (DateAt 16050)), (''b'', ''new'', None),
         (''c'', ''archive'', Some (DateAt 16050))]"
    by code_simp
  note with_token = best_effort_batch_archive[where d = ?d and ids = ?ids and n = ?n,
                      THEN conjunct2, THEN mp, OF tok]
  note returned = with_token[THEN conjunct2, THEN conjunct1, THEN spec, THEN mp, OF v]
  note one_each = with_token[THEN conjunct2, THEN conjunct2, THEN mp, OF conjI, OF fin len]
  note without = best_effort_batch_archive[where d = ?bare and ids = ?ids and n = ?n,
                      THEN conjunct1, THEN mp, OF notok]
  note pending = best_effort_batch_archive[where d = "library [''a'', ''b'']"
                      and ids = "[''a'', ''b'']" and n = ?m,
                      THEN conjunct2, THEN mp, OF tok2, THEN conjunct1, THEN mp, OF w]
  have p1: "fst (archiveDocuments ?ids ?d ?n)
     = Resolved \<lparr>success = 2, failed = 1,
                 errors = [''b: Failed to update document: 403 Forbidden'']\<rparr>"
    using returned[THEN conjunct2, THEN conjunct1] unfolding yes no by (simp add: why)
  have p2: "placement (fst (snd (archiveDocuments ?ids ?d ?n)))
     = [(''a'', ''archive'', Some (DateAt 16050)), (''b'', ''new'', None),
        (''c'', ''archive'', Some (DateAt 16050))]"
    using returned[THEN conjunct2, THEN conjunct2, THEN conjunct1] rows
    unfolding yes t by simp
  have p3: "new_requests ?n (snd (snd (archiveDocuments ?ids ?d ?n)))
             = map (\<lambda>i. update_url i archive_params) ?ids"
    using one_each by (rule conjunct2)
  have p4: "archiveDocuments ?ids ?bare ?n
     = (Resolved \<lparr>success = 0, failed = 3, errors = [''No API token configured'']\<rparr>, ?bare, ?n)"
    using without by simp
  have p5: "fst (archiveDocuments [''a'', ''b''] (library [''a'', ''b'']) ?m) = Pending"
    using pending by (rule conjunct1)
  from tok v p1 p2 fin p3 notok p4 w p5 show ?thesis by (intro conjI)
qed

text \<open>
  The claim as stated covers every list of identifiers. Without a token no request is made
  and one error line stands for all failures; and an identifier given twice, accepted once
  and refused once, is reported as failed while its row is archived.
\<close>

theorem best_effort_batch_archive_counterexample:
  "archiveDocuments [''a'', ''b''] ((library [''a'', ''b''])\<lparr>apiToken := None\<rparr>)
      (net_at 10000 [accepted ''a'', accepted ''b''])
     = (Resolved \<lparr>success = 0, failed = 2, errors = [''No API token configured'']\<rparr>,
        (library [''a'', ''b''])\<lparr>apiToken := None\<rparr>,
        net_at 10000 [accepted ''a'', accepted ''b''])
 \<and> fst (archiveDocuments [''a'', ''a''] (library [''a'']) (net_at 10000 [accepted ''a'', refused]))
     = Resolved \<lparr>success = 1, failed = 1,
                 errors = [''a: Failed to update document: 403 Forbidden'']\<rparr>
 \<and> placement (fst (snd (archiveDocuments [''a'', ''a''] (library [''a''])
        (net_at 10000 [accepted ''a'', refused]))))
     = [(''a'', ''archive'', Some (DateAt 13050))]"
proof (intro conjI)
  show "archiveDocuments [''a'', ''b''] ((library [''a'', ''b''])\<lparr>apiToken := None\<rparr>)
      (net_at 10000 [accepted ''a'', accepted ''b''])
     = (Resolved \<lparr>success = 0, failed = 2, errors = [''No API token configured'']\<rparr>,
        (library [''a'', ''b''])\<lparr>apiToken := None\<rparr>,
        net_at 10000 [accepted ''a'', accepted ''b''])"
    by (simp add: archiveDocuments_def truthy_def)
  show "fst (archiveDocuments [''a'', ''a''] (library [''a'']) (net_at 10000 [accepted ''a'', refused]))
     = Resolved \<lparr>success = 1, failed = 1,
                 errors = [''a: Failed to update document: 403 Forbidden'']\<rparr>"
    by code_simp
  show "placement (fst (snd (archiveDocuments [''a'', ''a''] (library [''a''])
        (net_at 10000 [accepted ''a'', refused]))))
     = [(''a'', ''archive'', Some (DateAt 13050))]"
    by code_simp
qed

end
